theory Spec2Isabelle
  imports Complex_Main "HOL-Library.Sublist"
begin

section \<open>Strings\<close>

text \<open>
  A Python \<open>str\<close> is a sequence of code points, and \<open>len\<close> and slicing count code
  points. The model reads a \<^typ>\<open>char\<close> as one code point below 256 (the Latin-1 block,
  which holds every letter of the configured Portuguese keywords), so \<^const>\<open>length\<close> and
  \<^const>\<open>take\<close> on a \<^typ>\<open>string\<close> are \<open>len\<close> and \<open>s[:n]\<close>. Text with code points
  from 256 on (the emoji of some log messages) is outside this alphabet.
\<close>

definition lower_char :: "char \<Rightarrow> char" where
  \<comment> \<open>\<open>str.lower()\<close> on one code point below 256: A-Z, and the accented capitals
      U+00C0 to U+00DE without the multiplication sign U+00D7, move up by 32.\<close>
  "lower_char c =
     (let n = (of_char c :: nat)
      in if (65 \<le> n \<and> n \<le> 90) \<or> (192 \<le> n \<and> n \<le> 222 \<and> n \<noteq> 215)
         then char_of (n + 32) else c)"

definition lower :: "string \<Rightarrow> string" where
  "lower s = map lower_char s"

definition upper_char :: "char \<Rightarrow> string" where
  \<comment> \<open>\<open>str.upper()\<close> on one code point below 256: a-z, and the accented small letters
      U+00E0 to U+00FE without the division sign U+00F7, move down by 32; the sharp s
      U+00DF becomes the two letters SS. Python sends U+00B5 and U+00FF to capitals
      beyond code point 255, which this alphabet lacks: they are kept as they are.\<close>
  "upper_char c =
     (let n = (of_char c :: nat)
      in if (97 \<le> n \<and> n \<le> 122) \<or> (224 \<le> n \<and> n \<le> 254 \<and> n \<noteq> 247)
         then [char_of (n - 32)]
         else if n = 223 then ''SS'' else [c])"

definition upper :: "string \<Rightarrow> string" where
  "upper s = concat (map upper_char s)"

fun starts_with :: "string \<Rightarrow> string \<Rightarrow> bool" where
  \<comment> \<open>\<open>text.startswith(pat)\<close>\<close>
  "starts_with t [] = True"
| "starts_with [] (p # ps) = False"
| "starts_with (c # cs) (p # ps) = (c = p \<and> starts_with cs ps)"

fun py_in :: "string \<Rightarrow> string \<Rightarrow> bool" where
  \<comment> \<open>\<open>pat in text\<close> on strings: \<open>pat\<close> starts at some position of \<open>text\<close>.\<close>
  "py_in pat [] = (pat = [])"
| "py_in pat (c # cs) = (starts_with (c # cs) pat \<or> py_in pat cs)"

fun py_join :: "string \<Rightarrow> string list \<Rightarrow> string" where
  \<comment> \<open>\<open>sep.join(xs)\<close>\<close>
  "py_join sep [] = []"
| "py_join sep [x] = x"
| "py_join sep (x # y # ys) = x @ sep @ py_join sep (y # ys)"

definition quoted :: "string \<Rightarrow> string" where
  \<comment> \<open>the f-string \<open>f'"{s}"'\<close>\<close>
  "quoted s = [CHR 0x22] @ s @ [CHR 0x22]"

section \<open>Values of the API response\<close>

datatype pyval = PNone | PStr string

fun py_str :: "pyval \<Rightarrow> string" where
  \<comment> \<open>how an f-string renders the value\<close>
  "py_str PNone = ''None''"
| "py_str (PStr s) = s"

fun truthy :: "pyval \<Rightarrow> bool" where
  "truthy PNone = False"
| "truthy (PStr s) = (s \<noteq> [])"

datatype source_val = SourceObj "pyval option" | SourceOther

text \<open>
  A raw article is the dictionary the API client returns for one article. Each field is
  \<^const>\<open>None\<close> when the key is absent, and otherwise holds the JSON value: \<^const>\<open>PNone\<close>
  for \<open>null\<close>, \<^const>\<open>PStr\<close> for a string. The value under \<open>source\<close> is an object with
  an optional \<open>name\<close> (\<^const>\<open>SourceObj\<close>) or something that is not an object.
\<close>

record raw_article =
  r_title :: "pyval option"
  r_url :: "pyval option"
  r_publishedAt :: "pyval option"
  r_description :: "pyval option"
  r_source :: "source_val option"

definition dict_get :: "'a option \<Rightarrow> 'a \<Rightarrow> 'a" where
  \<comment> \<open>\<open>d.get(key, default)\<close>, for the field of the key\<close>
  "dict_get field dflt = (case field of None \<Rightarrow> dflt | Some v \<Rightarrow> v)"

datatype exn =
    KeyError string
  | TypeError string
  | AttributeError string
  | ApiException string

section \<open>Query builder and keyword matcher\<close>

text \<open>
  \<open>_build_search_query\<close> and \<open>_extract_matched_keywords\<close> are the same text in
  \<open>stock_news_monitor.py\<close> and \<open>backtest.py\<close>. The dictionary \<open>ticker_to_company\<close> is
  an association list in insertion order, the keyword list is
  \<open>config.price_moving_keywords\<close>.
\<close>

definition build_search_query :: "(string \<times> string) list \<Rightarrow> string list \<Rightarrow> string \<Rightarrow> string" where
  "build_search_query ticker_to_company keywords ticker =
     (let company_name = dict_get (map_of ticker_to_company ticker) ticker;
          base_query = quoted ticker @ '' OR '' @ quoted company_name;
          keyword_query = py_join '' OR '' (map quoted keywords)
      in ''('' @ base_query @ '') AND ('' @ keyword_query @ '')'')"

fun match_loop :: "string \<Rightarrow> string list \<Rightarrow> string list \<Rightarrow> string list" where
  \<comment> \<open>the \<open>for keyword in ...\<close> loop, with the list \<open>matched\<close> built so far\<close>
  "match_loop text_lower [] matched = matched"
| "match_loop text_lower (keyword # rest) matched =
     (if py_in (lower keyword) text_lower
      then match_loop text_lower rest (matched @ [keyword])
      else match_loop text_lower rest matched)"

definition extract_matched_keywords :: "string list \<Rightarrow> string \<Rightarrow> string list" where
  "extract_matched_keywords keywords article_text =
     match_loop (lower article_text) keywords []"

definition occurs_in :: "string \<Rightarrow> string \<Rightarrow> bool" where
  \<comment> \<open>the spec's words: the keyword, lower-cased, is a substring of the lower-cased text\<close>
  "occurs_in keyword txt = sublist (lower keyword) (lower txt)"

section \<open>Articles, configuration and the state of a monitor\<close>

text \<open>
  The dataclass \<open>NewsArticle\<close> of \<open>stock_news_monitor.py\<close> declares six fields, the one
  of \<open>backtest.py\<close> five: it has neither \<open>description\<close> nor \<open>source\<close>. A field holds
  whatever the response held, so \<open>title\<close>, \<open>url\<close>, \<open>published_at\<close> and \<open>description\<close>
  are values of type \<^typ>\<open>pyval\<close>.
\<close>

record NewsArticle =
  title :: pyval
  url :: pyval
  published_at :: pyval
  description :: pyval
  matched_keywords :: "string list"
  ticker :: "string option"

record NewsArticle_bt =
  bt_title :: pyval
  bt_url :: pyval
  bt_published_at :: pyval
  bt_matched_keywords :: "string list"
  bt_ticker :: "string option"

definition NewsArticle_fields :: "string list" where
  "NewsArticle_fields =
     [''title'', ''url'', ''published_at'', ''description'', ''matched_keywords'', ''ticker'']"

definition NewsArticle_bt_fields :: "string list" where
  "NewsArticle_bt_fields =
     [''title'', ''url'', ''published_at'', ''matched_keywords'', ''ticker'']"

definition fetch_kwargs :: "string list" where
  \<comment> \<open>the keyword arguments of the call \<open>NewsArticle(...)\<close> in \<open>stock_news_monitor.py\<close>\<close>
  "fetch_kwargs =
     [''title'', ''url'', ''published_at'', ''description'', ''matched_keywords'', ''ticker'']"

definition fetch_kwargs_bt :: "string list" where
  \<comment> \<open>the keyword arguments of the call \<open>NewsArticle(...)\<close> in \<open>backtest.py\<close>\<close>
  "fetch_kwargs_bt =
     [''title'', ''url'', ''published_at'', ''source'', ''description'', ''matched_keywords'',
      ''ticker'']"

definition unexpected_kwarg :: "string list \<Rightarrow> string list \<Rightarrow> string option" where
  \<comment> \<open>The \<open>__init__\<close> a dataclass generates takes its declared fields and nothing else:
      the first keyword argument that is not a field makes the call raise \<open>TypeError\<close>.\<close>
  "unexpected_kwarg declared kwargs = find (\<lambda>k. k \<notin> set declared) kwargs"

text \<open>
  \<open>MonitorConfig\<close> of \<open>stock_news_monitor.py\<close> declares no \<open>tickers\<close>;
  \<open>NewsMonitor.__init__\<close> adds the attribute to the object, which is the record
  extended by one field. \<open>MonitorConfig\<close> of \<open>backtest.py\<close> declares all four.
\<close>

record MonitorConfig =
  api_key :: string
  refresh_interval :: int
  price_moving_keywords :: "string list"

record MonitorConfig_tickers = MonitorConfig +
  tickers :: "string list"

definition default_keywords :: "string list" where
  \<comment> \<open>the default of \<open>price_moving_keywords\<close> in \<open>stock_news_monitor.py\<close>\<close>
  "default_keywords =
     [''commodities'', ''plantio'', ''colheita'', ''clima'', ''chuva'', ''seca'',
      ''pragas'', ''doen'' @ [CHR 0xE7] @ ''as'', ''elninho'', ''geada'', ''temperatura'',
      ''granizo'', ''inunda'' @ [CHR 0xE7] @ [CHR 0xF5] @ ''es'', ''oferta'', ''demanda'',
      ''safra'', ''exporta'' @ [CHR 0xE7] @ [CHR 0xE3] @ ''o'',
      ''importa'' @ [CHR 0xE7] @ [CHR 0xE3] @ ''o'',
      ''especula'' @ [CHR 0xE7] @ [CHR 0xE3] @ ''o'', ''tick de soja'',
      ''cota'' @ [CHR 0xE7] @ [CHR 0xE3] @ ''o da soja'', ''contrato futuro soja'',
      ''Guerra'', ''san'' @ [CHR 0xE7] @ [CHR 0xF5] @ ''es'', ''China'',
      ''guerra comercial'', ''pol'' @ [CHR 0xED] @ ''tica agr'' @ [CHR 0xED] @ ''cola'',
      ''subs'' @ [CHR 0xED] @ ''dios'', ''tarifas'', ''acordo comercial'']"

definition default_keywords_bt :: "string list" where
  \<comment> \<open>The default of \<open>price_moving_keywords\<close> in \<open>backtest.py\<close>. Its four section titles
      are string literals, not comments, so Python joins each to the literal after it.\<close>
  "default_keywords_bt =
     [''coringascommodities'', ''biodiesel'', ''biocombust'' @ [CHR 0xED] @ ''veis'',
      ''estoques'', ''produ'' @ [CHR 0xE7] @ [CHR 0xE3] @ ''o'', ''consumo'',
      ''pre'' @ [CHR 0xE7] @ ''o'', ''pre'' @ [CHR 0xE7] @ ''os'',
      ''fatores naturaisclima'', ''chuva'', ''seca'', ''pragas'',
      ''doen'' @ [CHR 0xE7] @ ''as'', ''fatores de estrito mercadooferta'', ''demanda'',
      ''d'' @ [CHR 0xF3] @ ''lar'', ''c'' @ [CHR 0xE2] @ ''mbio'', ''safra'',
      ''exporta'' @ [CHR 0xE7] @ [CHR 0xE3] @ ''o'',
      ''importa'' @ [CHR 0xE7] @ [CHR 0xE3] @ ''o'', ''fundos de investimento'',
      ''bolsa de Chicago'', ''especula'' @ [CHR 0xE7] @ [CHR 0xE3] @ ''o'',
      ''tick de soja'', ''cota'' @ [CHR 0xE7] @ [CHR 0xE3] @ ''o da soja'',
      ''fatores geopol'' @ [CHR 0xED] @ ''ticosGuerra'',
      ''san'' @ [CHR 0xE7] @ [CHR 0xF5] @ ''es'', ''China'', ''guerra comercial'',
      ''pol'' @ [CHR 0xED] @ ''tica agr'' @ [CHR 0xED] @ ''cola'',
      ''subs'' @ [CHR 0xED] @ ''dios'']"

datatype level = DEBUG | INFO | ERROR

datatype aival = AStr string | ANum rat

text \<open>
  A message is one call of a logger or one \<open>file.write\<close>. \<^term>\<open>Text s\<close> is the message
  whose text is \<open>s\<close>. The other constructors stand for the messages whose text holds an
  emoji, or Python's rendering of a number, a list or an exception; they carry the values
  put into the message.
\<close>

datatype msg =
    Text string
  | FoundTotal nat string
  | MatchedKeywords "string list"
  | ErrorFetching string exn
  | AIRequested pyval
  | Alert string
  | AIAnalysis aival
  | ErrorAI exn
  | Checking string
  | FoundNew nat
  | Starting
  | RefreshInterval int
  | KeywordsBanner string int
  | Stopping

record request =
  rq_q :: string
  rq_language :: string
  rq_sort_by :: string
  rq_now :: string
  rq_days_back :: nat
  rq_page_size :: nat

datatype api_reply = Raises exn | Response "raw_article list"

text \<open>
  The world outside the program: \<open>api n r\<close> is what the \<open>n\<close>-th call of
  \<open>newsapi.get_everything\<close> of the process does when it is given the request \<open>r\<close>: it
  raises an exception, or returns a response whose list under \<open>articles\<close> is given (the
  empty list when the key is absent). \<open>clock n\<close> is the \<open>n\<close>-th reading of
  \<open>datetime.now()\<close>. The two date strings of a request are determined by
  \<^const>\<open>rq_now\<close> and \<^const>\<open>rq_days_back\<close>. The exceptions are those
  \<open>except Exception\<close> catches; the interrupt of the user is not one of them.
\<close>

record env =
  api :: "nat \<Rightarrow> request \<Rightarrow> api_reply"
  clock :: "nat \<Rightarrow> string"

text \<open>
  The state: the attributes of the \<open>NewsMonitor\<close> object, what the process has logged
  (\<open>logged\<close>) and written to \<open>articles.log\<close> (only \<open>backtest.py\<close> has that file), and
  how often it has called the API and read the clock.
\<close>

record monitor =
  config :: MonitorConfig_tickers
  ticker_to_company :: "(string \<times> string) list"
  processed_articles :: "pyval set"
  logged :: "(level \<times> msg) list"
  articles_log :: "msg list"
  api_calls :: nat
  clock_reads :: nat

definition log_to :: "level \<Rightarrow> msg \<Rightarrow> monitor \<Rightarrow> monitor" where
  "log_to lvl m st = st\<lparr>logged := logged st @ [(lvl, m)]\<rparr>"

definition file_write :: "msg \<Rightarrow> monitor \<Rightarrow> monitor" where
  "file_write m st = st\<lparr>articles_log := articles_log st @ [m]\<rparr>"

definition rule80 :: string where
  \<comment> \<open>\<open>'='*80\<close>\<close>
  "rule80 = replicate 80 CHR ''=''"

definition nl :: string where
  "nl = [CHR 0x0A]"

section \<open>stock\_news\_monitor.py\<close>

definition build_ticker_mapping :: "(string \<times> string) list" where
  "build_ticker_mapping = [(''Brasil'', ''comercio de soja'')]"

definition NewsMonitor_init :: "MonitorConfig \<Rightarrow> monitor" where
  \<comment> \<open>\<open>NewsMonitor.__init__\<close>, in a process that has logged nothing yet\<close>
  "NewsMonitor_init cfg =
     \<lparr>config = \<lparr>api_key = api_key cfg, refresh_interval = refresh_interval cfg,
                price_moving_keywords = price_moving_keywords cfg,
                tickers = map fst build_ticker_mapping\<rparr>,
      ticker_to_company = build_ticker_mapping,
      processed_articles = {},
      logged = [], articles_log = [], api_calls = 0, clock_reads = 0\<rparr>"

definition article_text :: "raw_article \<Rightarrow> string" where
  \<comment> \<open>\<open>f"{article.get('title', '')} {article.get('description', '')}"\<close>\<close>
  "article_text a =
     py_str (dict_get (r_title a) (PStr [])) @ '' '' @ py_str (dict_get (r_description a) (PStr []))"

fun article_loop ::
  "string \<Rightarrow> raw_article list \<Rightarrow> NewsArticle list \<Rightarrow> monitor \<Rightarrow> (exn + NewsArticle list) \<times> monitor" where
  \<comment> \<open>The loop \<open>for article in articles.get('articles', [])\<close> of
      \<open>fetch_news_for_ticker\<close>, with the list \<open>news_articles\<close> built so far. An
      exception ends it, and leaves the state as it has become.\<close>
  "article_loop tk [] news_articles st = (Inr news_articles, st)"
| "article_loop tk (a # rest) news_articles st =
     (case r_url a of
        None \<Rightarrow> (Inl (KeyError ''url''), st)
      | Some u \<Rightarrow>
          if u \<in> processed_articles st then article_loop tk rest news_articles st
          else
            (case unexpected_kwarg NewsArticle_fields fetch_kwargs of
               Some k \<Rightarrow> (Inl (TypeError k), st)
             | None \<Rightarrow>
                 (let news_article =
                        \<lparr>title = dict_get (r_title a) (PStr ''No title''),
                         url = u,
                         published_at = dict_get (r_publishedAt a) (PStr []),
                         description = dict_get (r_description a) (PStr []),
                         matched_keywords = [],
                         ticker = Some tk\<rparr>;
                      matched =
                        extract_matched_keywords (price_moving_keywords (config st)) (article_text a);
                      st1 = log_to INFO (Text (''Article: '' @ py_str (title news_article))) st;
                      st2 = log_to INFO (MatchedKeywords matched) st1;
                      news_article' = news_article\<lparr>matched_keywords := matched\<rparr>
                  in if matched \<noteq> []
                     then article_loop tk rest (news_articles @ [news_article'])
                            (st2\<lparr>processed_articles := insert u (processed_articles st2)\<rparr>)
                     else article_loop tk rest news_articles st2)))"

definition search_request :: "env \<Rightarrow> string \<Rightarrow> monitor \<Rightarrow> request" where
  \<comment> \<open>the arguments of \<open>newsapi.get_everything\<close>: the query, and the last 14 days before
      the reading \<open>end_date\<close> of the clock\<close>
  "search_request e tk st =
     \<lparr>rq_q = build_search_query (ticker_to_company st) (price_moving_keywords (config st)) tk,
      rq_language = ''pt'', rq_sort_by = ''publishedAt'',
      rq_now = clock e (clock_reads st), rq_days_back = 14, rq_page_size = 20\<rparr>"

definition fetch_body :: "env \<Rightarrow> string \<Rightarrow> monitor \<Rightarrow> (exn + NewsArticle list) \<times> monitor" where
  \<comment> \<open>the \<open>try\<close> block of \<open>fetch_news_for_ticker\<close>\<close>
  "fetch_body e tk st =
     (let rq = search_request e tk st;
          st1 = log_to DEBUG (Text (''Searching for ticker '' @ tk @ '' with query: '' @ rq_q rq)) st;
          st2 = st1\<lparr>clock_reads := clock_reads st1 + 1\<rparr>;
          reply = api e (api_calls st2) rq;
          st3 = st2\<lparr>api_calls := api_calls st2 + 1\<rparr>
      in case reply of
           Raises x \<Rightarrow> (Inl x, st3)
         | Response articles \<Rightarrow>
             article_loop tk articles []
               (log_to INFO (FoundTotal (length articles) tk) st3))"

definition fetch_news_for_ticker :: "env \<Rightarrow> string \<Rightarrow> monitor \<Rightarrow> NewsArticle list \<times> monitor" where
  \<comment> \<open>the \<open>try\<close> block, and the handler \<open>except Exception as e\<close>\<close>
  "fetch_news_for_ticker e tk st =
     (case fetch_body e tk st of
        (Inl x, st') \<Rightarrow> ([], log_to ERROR (ErrorFetching tk x) st')
      | (Inr news_articles, st') \<Rightarrow> (news_articles, st'))"

definition ai_payload :: "(string \<times> aival) list" where
  "ai_payload =
     [(''sentiment'', AStr ''neutral''),
      (''impact_score'', ANum (1 / 2)),
      (''summary'', AStr ''AI analysis not yet implemented''),
      (''recommendation'', AStr ''monitor'')]"

definition analyze_with_ai :: "pyval \<Rightarrow> monitor \<Rightarrow> (exn + (string \<times> aival) list) \<times> monitor" where
  "analyze_with_ai u st = (Inr ai_payload, log_to INFO (AIRequested u) st)"

definition truncated_desc :: "string \<Rightarrow> string" where
  \<comment> \<open>\<open>desc[:200] + "..." if len(desc) > 200 else desc\<close>\<close>
  "truncated_desc desc = (if length desc > 200 then take 200 desc @ ''...'' else desc)"

definition write_block :: "env \<Rightarrow> NewsArticle \<Rightarrow> monitor \<Rightarrow> monitor" where
  \<comment> \<open>\<open>process_article\<close> up to the \<open>try\<close>: the lines of the block, with the description
      when it is truthy\<close>
  "write_block e article st =
     (let timestamp = clock e (clock_reads st);
          st = st\<lparr>clock_reads := clock_reads st + 1\<rparr>;
          st = log_to INFO (Alert (''soy news alert - '' @ timestamp)) st;
          st = log_to INFO (Text (nl @ rule80)) st;
          st = log_to INFO (Text rule80) st;
          st = log_to INFO (Text (''Ticker: '' @ (case ticker article of None \<Rightarrow> ''None'' | Some t \<Rightarrow> t))) st;
          st = log_to INFO (Text (''Title: '' @ py_str (title article))) st;
          st = log_to INFO (Text (''Published: '' @ py_str (published_at article))) st;
          st = log_to INFO (Text (''URL: '' @ py_str (url article))) st;
          st = log_to INFO (Text (''Matched Keywords: '' @ py_join '', '' (matched_keywords article))) st
      in if truthy (description article)
         then log_to INFO
                (Text (''Description: '' @ truncated_desc (py_str (description article)) @ nl)) st
         else st)"

definition process_article_with ::
  "(pyval \<Rightarrow> monitor \<Rightarrow> (exn + (string \<times> aival) list) \<times> monitor) \<Rightarrow> env \<Rightarrow> NewsArticle \<Rightarrow> monitor \<Rightarrow> monitor" where
  \<comment> \<open>\<open>process_article\<close>, for the method \<open>analyze\<close> that \<open>self.analyze_with_ai\<close> is
      bound to: the block, then the \<open>try\<close> with its handler\<close>
  "process_article_with analyze e article st =
     (case analyze (url article) (write_block e article st) of
        (Inr ai_result, st') \<Rightarrow>
          log_to INFO
            (AIAnalysis (dict_get (map_of ai_result ''summary'') (AStr ''No summary available''))) st'
      | (Inl x, st') \<Rightarrow>
          log_to INFO (Text (rule80 @ nl)) (log_to ERROR (ErrorAI x) st'))"

definition process_article :: "env \<Rightarrow> NewsArticle \<Rightarrow> monitor \<Rightarrow> monitor" where
  "process_article = process_article_with analyze_with_ai"

fun process_all :: "env \<Rightarrow> NewsArticle list \<Rightarrow> monitor \<Rightarrow> monitor" where
  \<comment> \<open>the loop \<open>for article in articles\<close> of \<open>check_news\<close>\<close>
  "process_all e [] st = st"
| "process_all e (a # rest) st = process_all e rest (process_article e a st)"

fun check_tickers :: "env \<Rightarrow> string list \<Rightarrow> monitor \<Rightarrow> NewsArticle list \<times> monitor" where
  \<comment> \<open>The loop \<open>for ticker in self.config.tickers\<close> of \<open>check_news\<close>. It returns the
      articles it has passed to \<open>process_article\<close>, in that order; \<open>total_articles\<close> is
      their number.\<close>
  "check_tickers e [] st = ([], st)"
| "check_tickers e (tk # rest) st =
     (let (articles, st1) = fetch_news_for_ticker e tk st;
          st2 = process_all e articles st1;
          (later, st3) = check_tickers e rest st2
      in (articles @ later, st3))"

definition check_news :: "env \<Rightarrow> monitor \<Rightarrow> NewsArticle list \<times> monitor" where
  "check_news e st =
     (let st0 = log_to INFO (Checking (py_join '', '' (tickers (config st)))) st;
          (emitted, st1) = check_tickers e (tickers (config st0)) st0;
          total_articles = length emitted
      in (emitted,
          if total_articles = 0 then log_to INFO (Text ''No new relevant articles found'') st1
          else log_to INFO (FoundNew total_articles) st1))"

fun cycles :: "env \<Rightarrow> nat \<Rightarrow> monitor \<Rightarrow> NewsArticle list \<times> monitor" where
  \<comment> \<open>\<open>n\<close> runs of \<open>check_news\<close>, one after the other\<close>
  "cycles e 0 st = ([], st)"
| "cycles e (Suc n) st =
     (let (first, st1) = check_news e st;
          (later, st2) = cycles e n st1
      in (first @ later, st2))"


section \<open>backtest.py\<close>

definition common_mappings :: "(string \<times> string) list" where
  "common_mappings =
     [(''FUT SJC'', ''Futuro de soja na B3''),
      (''CME'', ''CME Group''),
      (''NYSE'', ''NYSE indice composto''),
      (''B3'', ''Bolsa B3''),
      (''ADM'', ''Archer Daniels Midland''),
      (''CARG'', ''Cargill''),
      (''Bunge'', ''Bunge''),
      (''Louis Dreyfus'', ''Louis Dreyfus''),
      (''Amaggi'', ''Amaggi''),
      (''SLC Agr'' @ [CHR 0xED] @ ''cola'', ''SLC Agr'' @ [CHR 0xED] @ ''cola''),
      (''BrasilAgro'', ''BrasilAgro''),
      (''Viterra'', ''Viterra''),
      (''COFCO International'', ''COFCO International''),
      (''Syngenta'', ''Syngenta''),
      (''Bayer'', ''Bayer''),
      (''BASF'', ''BASF''),
      (''Mosaic'', ''Mosaic''),
      (''Nutrien'', ''Nutrien''),
      (''ILPF'', ''relacao de preco soja e boi'')]"

definition build_ticker_mapping_bt :: "string list \<Rightarrow> (string \<times> string) list" where
  "build_ticker_mapping_bt tks = map (\<lambda>t. (t, dict_get (map_of common_mappings t) t)) tks"

definition NewsMonitor_init_bt :: "MonitorConfig_tickers \<Rightarrow> monitor" where
  "NewsMonitor_init_bt cfg =
     \<lparr>config = cfg,
      ticker_to_company = build_ticker_mapping_bt (tickers cfg),
      processed_articles = {},
      logged = [], articles_log = [], api_calls = 0, clock_reads = 0\<rparr>"

definition main_config_bt :: "string list \<Rightarrow> string \<Rightarrow> int option \<Rightarrow> MonitorConfig_tickers" where
  \<comment> \<open>The configuration \<open>main\<close> builds from the parsed command line: the positional
      \<open>tickers\<close> (\<open>nargs='+'\<close>: the parser accepts one or more), \<open>--api-key\<close> and
      \<open>--interval\<close> with its default 60.\<close>
  "main_config_bt args_tickers args_api_key args_interval =
     \<lparr>api_key = args_api_key,
      refresh_interval = dict_get args_interval 60,
      price_moving_keywords = default_keywords_bt,
      tickers = map upper args_tickers\<rparr>"

definition source_name :: "raw_article \<Rightarrow> exn + pyval" where
  \<comment> \<open>\<open>article.get('source', {}).get('name', 'Unknown')\<close>\<close>
  "source_name a =
     (case r_source a of
        None \<Rightarrow> Inr (PStr ''Unknown'')
      | Some (SourceObj name) \<Rightarrow> Inr (dict_get name (PStr ''Unknown''))
      | Some SourceOther \<Rightarrow> Inl (AttributeError ''get''))"

fun article_loop_bt ::
  "string \<Rightarrow> raw_article list \<Rightarrow> NewsArticle_bt list \<Rightarrow> monitor \<Rightarrow> (exn + NewsArticle_bt list) \<times> monitor" where
  "article_loop_bt tk [] news_articles st = (Inr news_articles, st)"
| "article_loop_bt tk (a # rest) news_articles st =
     (case r_url a of
        None \<Rightarrow> (Inl (KeyError ''url''), st)
      | Some u \<Rightarrow>
          if u \<in> processed_articles st then article_loop_bt tk rest news_articles st
          else
            (case source_name a of
               Inl x \<Rightarrow> (Inl x, st)
             | Inr src \<Rightarrow>
                 (case unexpected_kwarg NewsArticle_bt_fields fetch_kwargs_bt of
                    Some k \<Rightarrow> (Inl (TypeError k), st)
                  | None \<Rightarrow>
                      (let news_article =
                             \<lparr>bt_title = dict_get (r_title a) (PStr ''No title''),
                              bt_url = u,
                              bt_published_at = dict_get (r_publishedAt a) (PStr []),
                              bt_matched_keywords = [],
                              bt_ticker = Some tk\<rparr>;
                           matched =
                             extract_matched_keywords (price_moving_keywords (config st)) (article_text a);
                           st1 = log_to INFO (Text (''Article: '' @ py_str (bt_title news_article))) st;
                           st2 = log_to INFO (MatchedKeywords matched) st1;
                           news_article' = news_article\<lparr>bt_matched_keywords := matched\<rparr>
                       in if matched \<noteq> []
                          then article_loop_bt tk rest (news_articles @ [news_article'])
                                 (st2\<lparr>processed_articles := insert u (processed_articles st2)\<rparr>)
                          else article_loop_bt tk rest news_articles st2))))"

definition search_request_bt :: "env \<Rightarrow> string \<Rightarrow> monitor \<Rightarrow> request" where
  "search_request_bt e tk st =
     \<lparr>rq_q = build_search_query (ticker_to_company st) (price_moving_keywords (config st)) tk,
      rq_language = ''en'', rq_sort_by = ''publishedAt'',
      rq_now = clock e (clock_reads st), rq_days_back = 7, rq_page_size = 20\<rparr>"

definition fetch_body_bt :: "env \<Rightarrow> string \<Rightarrow> monitor \<Rightarrow> (exn + NewsArticle_bt list) \<times> monitor" where
  "fetch_body_bt e tk st =
     (let rq = search_request_bt e tk st;
          st1 = log_to DEBUG (Text (''Searching for ticker '' @ tk @ '' with query: '' @ rq_q rq)) st;
          st2 = st1\<lparr>clock_reads := clock_reads st1 + 1\<rparr>;
          reply = api e (api_calls st2) rq;
          st3 = st2\<lparr>api_calls := api_calls st2 + 1\<rparr>
      in case reply of
           Raises x \<Rightarrow> (Inl x, st3)
         | Response articles \<Rightarrow>
             article_loop_bt tk articles []
               (log_to INFO (FoundTotal (length articles) tk) st3))"

definition fetch_news_for_ticker_bt :: "env \<Rightarrow> string \<Rightarrow> monitor \<Rightarrow> NewsArticle_bt list \<times> monitor" where
  "fetch_news_for_ticker_bt e tk st =
     (case fetch_body_bt e tk st of
        (Inl x, st') \<Rightarrow> ([], log_to ERROR (ErrorFetching tk x) st')
      | (Inr news_articles, st') \<Rightarrow> (news_articles, st'))"

definition process_article_bt :: "env \<Rightarrow> NewsArticle_bt \<Rightarrow> monitor \<Rightarrow> (exn + unit) \<times> monitor" where
  \<comment> \<open>\<open>process_article\<close> writes five pieces to \<open>articles.log\<close> and then reads
      \<open>article.source\<close>, an attribute no \<open>NewsArticle\<close> of this file has: it raises
      \<open>AttributeError\<close>, outside every \<open>try\<close>.\<close>
  "process_article_bt e article st =
     (let timestamp = clock e (clock_reads st);
          st = st\<lparr>clock_reads := clock_reads st + 1\<rparr>;
          st = file_write (Alert (''STOCK NEWS ALERT - '' @ timestamp)) st;
          st = file_write (Text (nl @ rule80)) st;
          st = file_write (Text rule80) st;
          st = file_write (Text (''Ticker: '' @ (case bt_ticker article of None \<Rightarrow> ''None'' | Some t \<Rightarrow> t))) st;
          st = file_write (Text (''Title: '' @ py_str (bt_title article))) st
      in (Inl (AttributeError ''source''), st))"

fun process_all_bt :: "env \<Rightarrow> NewsArticle_bt list \<Rightarrow> monitor \<Rightarrow> (exn + unit) \<times> monitor" where
  "process_all_bt e [] st = (Inr (), st)"
| "process_all_bt e (a # rest) st =
     (case process_article_bt e a st of
        (Inl x, st') \<Rightarrow> (Inl x, st')
      | (Inr u, st') \<Rightarrow> process_all_bt e rest st')"

fun check_tickers_bt :: "env \<Rightarrow> string list \<Rightarrow> monitor \<Rightarrow> (exn + NewsArticle_bt list) \<times> monitor" where
  \<comment> \<open>as \<^const>\<open>check_tickers\<close>; an exception of \<open>process_article\<close> is not caught\<close>
  "check_tickers_bt e [] st = (Inr [], st)"
| "check_tickers_bt e (tk # rest) st =
     (let (articles, st1) = fetch_news_for_ticker_bt e tk st
      in case process_all_bt e articles st1 of
           (Inl x, st2) \<Rightarrow> (Inl x, st2)
         | (Inr u, st2) \<Rightarrow>
             (case check_tickers_bt e rest st2 of
                (Inl x, st3) \<Rightarrow> (Inl x, st3)
              | (Inr later, st3) \<Rightarrow> (Inr (articles @ later), st3)))"

definition check_news_bt :: "env \<Rightarrow> monitor \<Rightarrow> (exn + NewsArticle_bt list) \<times> monitor" where
  "check_news_bt e st =
     (let st0 = log_to INFO (Checking (py_join '', '' (tickers (config st)))) st
      in case check_tickers_bt e (tickers (config st0)) st0 of
           (Inl x, st1) \<Rightarrow> (Inl x, st1)
         | (Inr emitted, st1) \<Rightarrow>
             (Inr emitted,
              if length emitted = 0 then log_to INFO (Text ''No new relevant articles found'') st1
              else log_to INFO (FoundNew (length emitted)) st1))"

fun cycles_bt :: "env \<Rightarrow> nat \<Rightarrow> monitor \<Rightarrow> (exn + NewsArticle_bt list) \<times> monitor" where
  "cycles_bt e 0 st = (Inr [], st)"
| "cycles_bt e (Suc n) st =
     (case check_news_bt e st of
        (Inl x, st1) \<Rightarrow> (Inl x, st1)
      | (Inr first, st1) \<Rightarrow>
          (case cycles_bt e n st1 of
             (Inl x, st2) \<Rightarrow> (Inl x, st2)
           | (Inr later, st2) \<Rightarrow> (Inr (first @ later), st2)))"

section \<open>Notions the properties are stated with\<close>

text \<open>
  A raw article matches when the matcher finds a keyword in its text; \<open>normalized\<close> is
  the \<open>NewsArticle\<close> that \<open>fetch_news_for_ticker\<close> builds from it;
  \<open>matching_urls\<close> are the URLs of the matching articles of a response. An emitted
  article is \<open>sourced\<close> when some response of the API held a raw article with its URL
  whose text contains a configured keyword, and whose matches it carries.
\<close>

definition matches :: "string list \<Rightarrow> raw_article \<Rightarrow> bool" where
  "matches kws r = (extract_matched_keywords kws (article_text r) \<noteq> [])"

definition normalized :: "string list \<Rightarrow> string \<Rightarrow> raw_article \<Rightarrow> pyval \<Rightarrow> NewsArticle" where
  "normalized kws tk r u =
     \<lparr>title = dict_get (r_title r) (PStr ''No title''), url = u,
      published_at = dict_get (r_publishedAt r) (PStr []),
      description = dict_get (r_description r) (PStr []),
      matched_keywords = extract_matched_keywords kws (article_text r),
      ticker = Some tk\<rparr>"

definition matching_urls :: "string list \<Rightarrow> raw_article list \<Rightarrow> pyval set" where
  "matching_urls kws rs = {u. \<exists>r\<in>set rs. r_url r = Some u \<and> matches kws r}"

definition sourced :: "env \<Rightarrow> string list \<Rightarrow> NewsArticle \<Rightarrow> bool" where
  "sourced e kws a =
     (\<exists>i rq rs r. api e i rq = Response rs \<and> r \<in> set rs \<and> r_url r = Some (url a) \<and>
        matched_keywords a = extract_matched_keywords kws (article_text r) \<and>
        (\<exists>k\<in>set kws. occurs_in k (article_text r)))"

definition emits :: "env \<Rightarrow> monitor \<Rightarrow> NewsArticle list \<Rightarrow> monitor \<Rightarrow> bool" where
  "emits e st em st' =
     (config st' = config st \<and> ticker_to_company st' = ticker_to_company st \<and>
      processed_articles st \<subseteq> processed_articles st' \<and>
      distinct (map url em) \<and>
      url ` set em \<subseteq> processed_articles st' - processed_articles st \<and>
      (\<forall>a\<in>set em. sourced e (price_moving_keywords (config st)) a))"

definition seen :: "monitor \<Rightarrow> raw_article \<Rightarrow> bool" where
  "seen st r = (\<exists>u. r_url r = Some u \<and> u \<in> processed_articles st)"

definition text_of :: "pyval option \<Rightarrow> string \<Rightarrow> bool" where
  \<comment> \<open>the field of a raw article is the string \<open>s\<close>, or is absent and \<open>s\<close> is empty\<close>
  "text_of field s = (field = Some (PStr s) \<or> field = None \<and> s = [])"

section \<open>Example inputs\<close>

definition ex_config :: MonitorConfig where
  "ex_config = \<lparr>api_key = ''key'', refresh_interval = 30, price_moving_keywords = [''safra'', ''clima'']\<rparr>"

definition ex_article :: raw_article where
  \<comment> \<open>an article whose title holds the keyword safra\<close>
  "ex_article =
     \<lparr>r_title = Some (PStr ''Safra recorde''), r_url = Some (PStr ''http://a''),
      r_publishedAt = Some (PStr ''2025-01-01T00:00:00Z''), r_description = Some PNone,
      r_source = Some (SourceObj (Some (PStr ''G1'')))\<rparr>"

definition ex_no_url :: raw_article where
  \<comment> \<open>an article object without the key \<open>url\<close>\<close>
  "ex_no_url =
     \<lparr>r_title = Some (PStr ''Clima''), r_url = None, r_publishedAt = None,
      r_description = None, r_source = None\<rparr>"

definition ex_plain :: raw_article where
  \<comment> \<open>an article without any keyword\<close>
  "ex_plain =
     \<lparr>r_title = Some (PStr ''Futebol''), r_url = Some (PStr ''http://b''),
      r_publishedAt = None, r_description = Some (PStr ''Resultado do jogo''),
      r_source = None\<rparr>"

definition ex_plain_later :: raw_article where
  \<comment> \<open>the article of \<^const>\<open>ex_plain\<close> as a later search returns it, with a title that
      holds the keyword clima\<close>
  "ex_plain_later = ex_plain\<lparr>r_title := Some (PStr ''Clima muda o jogo'')\<rparr>"

definition ex_env_later :: env where
  "ex_env_later =
     \<lparr>api = (\<lambda>n rq. if n = 0 then Response [ex_plain] else Response [ex_plain_later]),
      clock = (\<lambda>n. ''2025-01-02 10:00:00'')\<rparr>"

definition ex_env_partial :: env where
  \<comment> \<open>the first call returns the article and a malformed one, every later call the
      article alone\<close>
  "ex_env_partial =
     \<lparr>api = (\<lambda>n rq. if n = 0 then Response [ex_article, ex_no_url] else Response [ex_article]),
      clock = (\<lambda>n. ''2025-01-02 10:00:00'')\<rparr>"

definition ex_env_same :: env where
  \<comment> \<open>every call returns the same article\<close>
  "ex_env_same =
     \<lparr>api = (\<lambda>n rq. Response [ex_article]), clock = (\<lambda>n. ''2025-01-02 10:00:00'')\<rparr>"

definition ex_env_b3 :: env where
  \<comment> \<open>the search for B3 fails with a network error, every other search returns the
      article\<close>
  "ex_env_b3 =
     \<lparr>api = (\<lambda>n rq. if sublist ''\"B3\"'' (rq_q rq) then Raises (ApiException ''network'')
                     else Response [ex_article]),
      clock = (\<lambda>n. ''2025-01-02 10:00:00'')\<rparr>"

definition ex_two_tickers :: monitor where
  \<comment> \<open>a monitor whose configured tickers are B3 and ADM\<close>
  "ex_two_tickers =
     (NewsMonitor_init ex_config)
       \<lparr>config := (config (NewsMonitor_init ex_config))\<lparr>tickers := [''B3'', ''ADM'']\<rparr>\<rparr>"

definition ex_emitted :: "string \<Rightarrow> NewsArticle" where
  \<comment> \<open>an emitted article with the given description\<close>
  "ex_emitted d =
     \<lparr>title = PStr ''Safra recorde'', url = PStr ''http://a'',
      published_at = PStr ''2025-01-01T00:00:00Z'', description = PStr d,
      matched_keywords = [''safra''], ticker = Some ''Brasil''\<rparr>"

definition ex_config_tick :: MonitorConfig where
  "ex_config_tick = \<lparr>api_key = ''key'', refresh_interval = 30, price_moving_keywords = [''tick de soja'']\<rparr>"

definition ex_tick :: raw_article where
  \<comment> \<open>the title ends with tick, the description starts with de soja\<close>
  "ex_tick =
     \<lparr>r_title = Some (PStr ''Alta do tick''), r_url = Some (PStr ''http://c''),
      r_publishedAt = None, r_description = Some (PStr ''de soja em Chicago''),
      r_source = None\<rparr>"

definition ex_env_tick :: env where
  "ex_env_tick = \<lparr>api = (\<lambda>n rq. Response [ex_tick]), clock = (\<lambda>n. ''2025-01-02 10:00:00'')\<rparr>"

definition ex_env_shared :: env where
  \<comment> \<open>the first call returns an article without any keyword; every later call returns
      an unrelated article and then the first one with a title that holds a keyword\<close>
  "ex_env_shared =
     \<lparr>api = (\<lambda>n rq. if n = 0 then Response [ex_plain] else Response [ex_article, ex_plain_later]),
      clock = (\<lambda>n. ''2025-01-02 10:00:00'')\<rparr>"


section \<open>Evaluation of characters\<close>

lemma char_of_nat_bits:
  "char_of (n::nat) = Char (bit n 0) (bit n 1) (bit n 2) (bit n 3) (bit n 4) (bit n 5) (bit n 6) (bit n 7)"
  by (simp add: char_of_def)

lemmas char_eval = lower_def lower_char_def upper_def upper_char_def char_of_nat_bits bit_Suc_0_iff

section \<open>The keyword matcher returns the configured keywords that occur\<close>

lemma starts_with_prefix: "starts_with t p = prefix p t"
  by (induction t p rule: starts_with.induct) auto

lemma py_in_sublist: "py_in p t = sublist p t"
  by (induction t) (auto simp: starts_with_prefix sublist_Cons_right)

lemma match_loop_filter:
  "match_loop txt ks acc = acc @ filter (\<lambda>k. py_in (lower k) txt) ks"
  by (induction ks arbitrary: acc) auto

lemma extract_filter:
  "extract_matched_keywords ks t = filter (\<lambda>k. occurs_in k t) ks"
  by (simp add: extract_matched_keywords_def match_loop_filter occurs_in_def py_in_sublist)

lemma count_list_filter:
  "count_list (filter P xs) k = (if P k then count_list xs k else 0)"
  by (induction xs) auto

lemma py_join_quoted:
  "py_join sep (x # xs) = x @ concat (map (\<lambda>y. sep @ y) xs)"
  by (induction xs arbitrary: x) auto

text \<open>
  Claim C4. For every text and every keyword list, \<open>_extract_matched_keywords\<close> returns
  the configured keywords that occur in the text, lower-cased on both sides, as a substring
  (some text before, the keyword, some text after), in the order of the configured list
  and not of the text. A keyword is in the result as often as it is in the configured
  list, however often it occurs in the text: once, when the configured list has no
  repetition.
\<close>

theorem extract_matched_keywords_spec:
  "extract_matched_keywords kws txt = filter (\<lambda>k. occurs_in k txt) kws \<and>
   (\<forall>k. occurs_in k txt = (\<exists>before after. lower txt = before @ lower k @ after)) \<and>
   subseq (extract_matched_keywords kws txt) kws \<and>
   (\<forall>k. count_list (extract_matched_keywords kws txt) k =
          (if occurs_in k txt then count_list kws k else 0)) \<and>
   (distinct kws \<longrightarrow> distinct (extract_matched_keywords kws txt))"
  by (simp add: extract_filter count_list_filter occurs_in_def sublist_def)

theorem extract_matched_keywords_spec_witness:
  "distinct [''safra'', ''clima'', ''China''] \<and>
   extract_matched_keywords [''safra'', ''clima'', ''China''] ''Clima e clima: SAFRA''
     = [''safra'', ''clima''] \<and>
   distinct (extract_matched_keywords [''safra'', ''clima'', ''China''] ''Clima e clima: SAFRA'')"
proof -
  have d: "distinct [''safra'', ''clima'', ''China'']" by simp
  have v: "extract_matched_keywords [''safra'', ''clima'', ''China''] ''Clima e clima: SAFRA''
     = [''safra'', ''clima'']"
    by (simp add: extract_matched_keywords_def char_eval)
  from extract_matched_keywords_spec[of "[''safra'', ''clima'', ''China'']" "''Clima e clima: SAFRA''"] d
  have "distinct (extract_matched_keywords [''safra'', ''clima'', ''China''] ''Clima e clima: SAFRA'')"
    by blast
  with d v show ?thesis by blast
qed

text \<open>
  Claim C5. For every ticker, every mapping of tickers to aliases and every keyword list
  \<open>k # ks\<close> (a non-empty one), \<open>_build_search_query\<close> produces
  \<open>("TICKER" OR "alias") AND ("k" OR ...)\<close>, each term between double quotes, the alias
  being the ticker itself when the mapping has none. For the ticker ADM of
  \<open>backtest.py\<close> and the keywords clima and safra it is
  \<open>("ADM" OR "Archer Daniels Midland") AND ("clima" OR "safra")\<close>.
\<close>

theorem build_search_query_shape:
  \<open>build_search_query m (k # ks) tk =
     ''('' @ quoted tk @ '' OR '' @ quoted (case map_of m tk of None \<Rightarrow> tk | Some alias \<Rightarrow> alias)
       @ '') AND ('' @ quoted k @ concat (map (\<lambda>x. '' OR '' @ quoted x) ks) @ '')'' \<and>
   build_search_query (build_ticker_mapping_bt [''ADM'']) [''clima'', ''safra''] ''ADM'' =
     ''("ADM" OR "Archer Daniels Midland") AND ("clima" OR "safra")''\<close>
  by (simp add: build_search_query_def dict_get_def py_join_quoted comp_def quoted_def
      build_ticker_mapping_bt_def common_mappings_def split: option.splits)

section \<open>The loop over the articles of a response\<close>

lemma kwargs_declared: "unexpected_kwarg NewsArticle_fields fetch_kwargs = None"
  by (simp add: unexpected_kwarg_def NewsArticle_fields_def fetch_kwargs_def)

lemma kwargs_bt_undeclared: "unexpected_kwarg NewsArticle_bt_fields fetch_kwargs_bt = Some ''source''"
  by (simp add: unexpected_kwarg_def NewsArticle_bt_fields_def fetch_kwargs_bt_def)

lemma article_loop_Cons:
  "article_loop tk (a # rest) acc st =
     (case r_url a of
        None \<Rightarrow> (Inl (KeyError ''url''), st)
      | Some u \<Rightarrow>
          if u \<in> processed_articles st then article_loop tk rest acc st
          else if matches (price_moving_keywords (config st)) a
          then article_loop tk rest (acc @ [normalized (price_moving_keywords (config st)) tk a u])
                 ((log_to INFO (MatchedKeywords (extract_matched_keywords (price_moving_keywords (config st)) (article_text a)))
                    (log_to INFO (Text (''Article: '' @ py_str (dict_get (r_title a) (PStr ''No title'')))) st))
                  \<lparr>processed_articles := insert u (processed_articles st)\<rparr>)
          else article_loop tk rest acc
                 (log_to INFO (MatchedKeywords [])
                    (log_to INFO (Text (''Article: '' @ py_str (dict_get (r_title a) (PStr ''No title'')))) st)))"
  by (simp add: kwargs_declared matches_def normalized_def Let_def log_to_def split: option.splits)

declare article_loop.simps(2) [simp del]

lemma log_to_frame [simp]:
  "processed_articles (log_to l m st) = processed_articles st"
  "config (log_to l m st) = config st"
  "ticker_to_company (log_to l m st) = ticker_to_company st"
  "api_calls (log_to l m st) = api_calls st"
  "clock_reads (log_to l m st) = clock_reads st"
  "articles_log (log_to l m st) = articles_log st"
  "logged (log_to l m st) = logged st @ [(l, m)]"
  by (simp_all add: log_to_def)

lemma article_loop_frame:
  "article_loop tk rs acc st = (res, st') \<Longrightarrow>
     config st' = config st \<and> ticker_to_company st' = ticker_to_company st \<and>
     api_calls st' = api_calls st \<and> clock_reads st' = clock_reads st \<and>
     articles_log st' = articles_log st"
proof (induction rs arbitrary: acc st)
  case Nil
  then show ?case by auto
next
  case (Cons a rs)
  then show ?case
    by (auto simp: article_loop_Cons split: option.splits if_splits)
qed

lemma matching_urls_Nil [simp]: "matching_urls kws [] = {}"
  by (simp add: matching_urls_def)

lemma matching_urls_Cons:
  "matching_urls kws (r # rs) =
     (case r_url r of None \<Rightarrow> {} | Some u \<Rightarrow> if matches kws r then {u} else {}) \<union> matching_urls kws rs"
  by (auto simp: matching_urls_def split: option.splits)

lemma article_loop_marks:
  "article_loop tk rs acc st = (res, st') \<Longrightarrow>
     processed_articles st' =
       processed_articles st \<union>
       matching_urls (price_moving_keywords (config st)) (takeWhile (\<lambda>r. r_url r \<noteq> None) rs)"
proof (induction rs arbitrary: acc st)
  case Nil
  then show ?case by auto
next
  case (Cons a rs)
  show ?case
  proof (cases "r_url a")
    case None
    with Cons.prems show ?thesis by (auto simp: article_loop_Cons)
  next
    case (Some u)
    show ?thesis
    proof (cases "u \<in> processed_articles st")
      case True
      with Some Cons.prems have "article_loop tk rs acc st = (res, st')"
        by (simp add: article_loop_Cons)
      from Cons.IH[OF this] True Some show ?thesis
        by (auto simp: matching_urls_Cons)
    next
      case False
      show ?thesis
      proof (cases "matches (price_moving_keywords (config st)) a")
        case True
        with Some False Cons.prems obtain acc1 st1 where
          st1: "article_loop tk rs acc1 st1 = (res, st')"
          "processed_articles st1 = insert u (processed_articles st)" "config st1 = config st"
          by (simp add: article_loop_Cons)
        from Cons.IH[OF st1(1)] st1(2,3) True Some show ?thesis
          by (auto simp: matching_urls_Cons)
      next
        case nomatch: False
        with Some False Cons.prems obtain st1 where
          st1: "article_loop tk rs acc st1 = (res, st')"
          "processed_articles st1 = processed_articles st" "config st1 = config st"
          by (simp add: article_loop_Cons)
        from Cons.IH[OF st1(1)] st1(2,3) nomatch Some show ?thesis
          by (auto simp: matching_urls_Cons)
      qed
    qed
  qed
qed

lemma article_loop_outcome:
  "article_loop tk rs acc st = (res, st') \<Longrightarrow>
     (if \<forall>r\<in>set rs. r_url r \<noteq> None
      then \<exists>new. res = Inr (acc @ new) \<and> distinct (map url new) \<and>
             url ` set new = processed_articles st' - processed_articles st \<and>
             (\<forall>a\<in>set new. \<exists>r\<in>set rs. r_url r = Some (url a) \<and>
                  matches (price_moving_keywords (config st)) r \<and>
                  a = normalized (price_moving_keywords (config st)) tk r (url a))
      else res = Inl (KeyError ''url''))"
proof (induction rs arbitrary: acc st)
  case Nil
  then show ?case by auto
next
  case (Cons a rs)
  show ?case
  proof (cases "r_url a")
    case None
    with Cons.prems show ?thesis by (auto simp: article_loop_Cons)
  next
    case (Some u)
    show ?thesis
    proof (cases "u \<in> processed_articles st")
      case True
      with Some Cons.prems have "article_loop tk rs acc st = (res, st')"
        by (simp add: article_loop_Cons)
      from Cons.IH[OF this] Some show ?thesis
        by (auto split: if_splits)
    next
      case False
      show ?thesis
      proof (cases "matches (price_moving_keywords (config st)) a")
        case True
        let ?n = "normalized (price_moving_keywords (config st)) tk a u"
        from True Some False Cons.prems obtain st1 where
          st1: "article_loop tk rs (acc @ [?n]) st1 = (res, st')"
          "processed_articles st1 = insert u (processed_articles st)" "config st1 = config st"
          by (simp add: article_loop_Cons)
        have sub: "processed_articles st1 \<subseteq> processed_articles st'"
          using article_loop_marks[OF st1(1)] by auto
        show ?thesis
        proof (cases "\<forall>r\<in>set rs. r_url r \<noteq> None")
          case allurl: True
          with Cons.IH[OF st1(1)] st1(3) obtain new where
            new: "res = Inr ((acc @ [?n]) @ new)" "distinct (map url new)"
            "url ` set new = processed_articles st' - processed_articles st1"
            "\<forall>a\<in>set new. \<exists>r\<in>set rs. r_url r = Some (url a) \<and>
                  matches (price_moving_keywords (config st)) r \<and>
                  a = normalized (price_moving_keywords (config st)) tk r (url a)"
            by auto
          have un: "url ?n = u" by (simp add: normalized_def)
          have "res = Inr (acc @ (?n # new))" using new(1) by simp
          moreover have "distinct (map url (?n # new))"
            using new(2,3) st1(2) un by auto
          moreover have "url ` set (?n # new) = processed_articles st' - processed_articles st"
            using new(3) st1(2) un sub False by auto
          moreover have "\<forall>b\<in>set (?n # new). \<exists>r\<in>set (a # rs). r_url r = Some (url b) \<and>
                  matches (price_moving_keywords (config st)) r \<and>
                  b = normalized (price_moving_keywords (config st)) tk r (url b)"
            using new(4) True Some un by auto
          ultimately show ?thesis using allurl Some by (intro conjI | simp | blast)+
        next
          case False
          with Cons.IH[OF st1(1)] Some show ?thesis by auto
        qed
      next
        case nomatch: False
        with Some False Cons.prems obtain st1 where
          st1: "article_loop tk rs acc st1 = (res, st')"
          "processed_articles st1 = processed_articles st" "config st1 = config st"
          by (simp add: article_loop_Cons)
        from Cons.IH[OF st1(1)] st1(2,3) Some show ?thesis
          by (auto split: if_splits)
      qed
    qed
  qed
qed

lemma emits_Nil:
  "config st' = config st \<Longrightarrow> ticker_to_company st' = ticker_to_company st \<Longrightarrow>
   processed_articles st \<subseteq> processed_articles st' \<Longrightarrow> emits e st [] st'"
  by (simp add: emits_def)

lemma emits_append:
  "emits e st em1 st1 \<Longrightarrow> emits e st1 em2 st2 \<Longrightarrow> emits e st (em1 @ em2) st2"
proof -
  assume a: "emits e st em1 st1" and b: "emits e st1 em2 st2"
  have c: "config st1 = config st" "config st2 = config st1"
    "ticker_to_company st1 = ticker_to_company st" "ticker_to_company st2 = ticker_to_company st1"
    using a b by (simp_all add: emits_def)
  have s: "processed_articles st \<subseteq> processed_articles st1"
    "processed_articles st1 \<subseteq> processed_articles st2"
    using a b by (simp_all add: emits_def)
  have d: "distinct (map url em1)" "distinct (map url em2)"
    using a b by (simp_all add: emits_def)
  have u: "url ` set em1 \<subseteq> processed_articles st1 - processed_articles st"
    "url ` set em2 \<subseteq> processed_articles st2 - processed_articles st1"
    using a b by (simp_all add: emits_def)
  have k: "\<forall>x\<in>set em1. sourced e (price_moving_keywords (config st)) x"
    "\<forall>x\<in>set em2. sourced e (price_moving_keywords (config st)) x"
    using a b c by (simp_all add: emits_def)
  have "url ` set em1 \<inter> url ` set em2 = {}" using u by blast
  then have "distinct (map url (em1 @ em2))" using d by simp
  moreover have "url ` set (em1 @ em2) \<subseteq> processed_articles st2 - processed_articles st"
    using u s by auto
  moreover have "\<forall>x\<in>set (em1 @ em2). sourced e (price_moving_keywords (config st)) x"
    using k by auto
  ultimately show ?thesis using c s unfolding emits_def by auto
qed

lemma matches_occurs: "matches kws r = (\<exists>k\<in>set kws. occurs_in k (article_text r))"
  by (simp add: matches_def extract_filter filter_empty_conv)

lemma fetch_body_eq:
  "fetch_body e tk st =
     (case api e (api_calls st) (search_request e tk st) of
        Raises x \<Rightarrow>
          (Inl x, (log_to DEBUG (Text (''Searching for ticker '' @ tk @ '' with query: '' @ rq_q (search_request e tk st))) st)
                    \<lparr>clock_reads := clock_reads st + 1, api_calls := api_calls st + 1\<rparr>)
      | Response rs \<Rightarrow>
          article_loop tk rs []
            (log_to INFO (FoundTotal (length rs) tk)
              ((log_to DEBUG (Text (''Searching for ticker '' @ tk @ '' with query: '' @ rq_q (search_request e tk st))) st)
                    \<lparr>clock_reads := clock_reads st + 1, api_calls := api_calls st + 1\<rparr>)))"
  by (simp add: fetch_body_def Let_def split: api_reply.splits)

lemma fetch_body_frame:
  assumes "fetch_body e tk st = (res, st')"
  shows "config st' = config st \<and> ticker_to_company st' = ticker_to_company st \<and>
    api_calls st' = api_calls st + 1 \<and> articles_log st' = articles_log st \<and>
    processed_articles st \<subseteq> processed_articles st'"
proof (cases "api e (api_calls st) (search_request e tk st)")
  case (Raises x)
  with assms show ?thesis by (auto simp: fetch_body_eq)
next
  case (Response rs)
  let ?st0 = "log_to INFO (FoundTotal (length rs) tk)
              ((log_to DEBUG (Text (''Searching for ticker '' @ tk @ '' with query: '' @ rq_q (search_request e tk st))) st)
                    \<lparr>clock_reads := clock_reads st + 1, api_calls := api_calls st + 1\<rparr>)"
  have loop: "article_loop tk rs [] ?st0 = (res, st')"
    using assms Response by (simp add: fetch_body_eq)
  have "processed_articles st \<subseteq> processed_articles st'"
    using article_loop_marks[OF loop] by simp
  then show ?thesis using article_loop_frame[OF loop] by simp
qed

lemma fetch_body_Response:
  assumes "api e (api_calls st) (search_request e tk st) = Response rs"
    and "fetch_body e tk st = (res, st')"
  shows "processed_articles st' =
           processed_articles st \<union>
           matching_urls (price_moving_keywords (config st)) (takeWhile (\<lambda>r. r_url r \<noteq> None) rs)"
    and "if \<forall>r\<in>set rs. r_url r \<noteq> None
      then \<exists>new. res = Inr new \<and> distinct (map url new) \<and>
             url ` set new = processed_articles st' - processed_articles st \<and>
             (\<forall>a\<in>set new. \<exists>r\<in>set rs. r_url r = Some (url a) \<and>
                  matches (price_moving_keywords (config st)) r \<and>
                  a = normalized (price_moving_keywords (config st)) tk r (url a))
      else res = Inl (KeyError ''url'')"
proof -
  let ?st0 = "log_to INFO (FoundTotal (length rs) tk)
              ((log_to DEBUG (Text (''Searching for ticker '' @ tk @ '' with query: '' @ rq_q (search_request e tk st))) st)
                    \<lparr>clock_reads := clock_reads st + 1, api_calls := api_calls st + 1\<rparr>)"
  have loop: "article_loop tk rs [] ?st0 = (res, st')"
    using assms by (simp add: fetch_body_eq)
  have p0: "processed_articles ?st0 = processed_articles st" "config ?st0 = config st"
    by simp_all
  show "processed_articles st' =
           processed_articles st \<union>
           matching_urls (price_moving_keywords (config st)) (takeWhile (\<lambda>r. r_url r \<noteq> None) rs)"
    using article_loop_marks[OF loop] p0 by simp
  show "if \<forall>r\<in>set rs. r_url r \<noteq> None
      then \<exists>new. res = Inr new \<and> distinct (map url new) \<and>
             url ` set new = processed_articles st' - processed_articles st \<and>
             (\<forall>a\<in>set new. \<exists>r\<in>set rs. r_url r = Some (url a) \<and>
                  matches (price_moving_keywords (config st)) r \<and>
                  a = normalized (price_moving_keywords (config st)) tk r (url a))
      else res = Inl (KeyError ''url'')"
    using article_loop_outcome[OF loop] p0 by (simp cong: if_cong)
qed

lemma fetch_emits:
  assumes "fetch_news_for_ticker e tk st = (arts, st')"
  shows "emits e st arts st'"
proof -
  obtain res st1 where body: "fetch_body e tk st = (res, st1)"
    by (cases "fetch_body e tk st")
  have fr: "config st1 = config st" "ticker_to_company st1 = ticker_to_company st"
    "processed_articles st \<subseteq> processed_articles st1"
    using fetch_body_frame[OF body] by simp_all
  show ?thesis
  proof (cases res)
    case (Inl x)
    with body assms have "arts = []" "st' = log_to ERROR (ErrorFetching tk x) st1"
      by (simp_all add: fetch_news_for_ticker_def)
    with fr show ?thesis by (simp add: emits_def)
  next
    case (Inr news)
    with body assms have eq: "arts = news" "st' = st1"
      by (simp_all add: fetch_news_for_ticker_def)
    obtain rs where rs: "api e (api_calls st) (search_request e tk st) = Response rs"
      using body Inr by (auto simp: fetch_body_eq split: api_reply.splits)
    from fetch_body_Response(2)[OF rs body] Inr obtain new where
      new: "res = Inr new" "distinct (map url new)"
        "url ` set new = processed_articles st1 - processed_articles st"
        "\<forall>a\<in>set new. \<exists>r\<in>set rs. r_url r = Some (url a) \<and>
                  matches (price_moving_keywords (config st)) r \<and>
                  a = normalized (price_moving_keywords (config st)) tk r (url a)"
      by (auto split: if_splits)
    have "\<forall>a\<in>set new. sourced e (price_moving_keywords (config st)) a"
    proof
      fix a assume "a \<in> set new"
      with new(4) obtain r where r: "r \<in> set rs" "r_url r = Some (url a)"
        "matches (price_moving_keywords (config st)) r"
        "a = normalized (price_moving_keywords (config st)) tk r (url a)" by blast
      have "matched_keywords a = extract_matched_keywords (price_moving_keywords (config st)) (article_text r)"
        by (subst r(4)) (simp add: normalized_def)
      with r rs show "sourced e (price_moving_keywords (config st)) a"
        unfolding sourced_def matches_occurs by blast
    qed
    with new eq Inr fr show ?thesis by (simp add: emits_def)
  qed
qed

lemma analyze_with_ai_frame:
  "analyze_with_ai u st = (res, st') \<Longrightarrow>
     res = Inr ai_payload \<and> st' = log_to INFO (AIRequested u) st"
  by (auto simp: analyze_with_ai_def)

lemma process_article_frame:
  "config (process_article e a st) = config st"
  "ticker_to_company (process_article e a st) = ticker_to_company st"
  "processed_articles (process_article e a st) = processed_articles st"
  "api_calls (process_article e a st) = api_calls st"
  "articles_log (process_article e a st) = articles_log st"
  by (simp_all add: process_article_def process_article_with_def write_block_def
      analyze_with_ai_def Let_def)

lemma process_all_frame:
  "config (process_all e as st) = config st"
  "ticker_to_company (process_all e as st) = ticker_to_company st"
  "processed_articles (process_all e as st) = processed_articles st"
  "api_calls (process_all e as st) = api_calls st"
  "articles_log (process_all e as st) = articles_log st"
  by (induction as arbitrary: st; simp add: process_article_frame)+

lemma check_tickers_emits:
  "check_tickers e ts st = (em, st') \<Longrightarrow> emits e st em st'"
proof (induction ts arbitrary: st em st')
  case Nil
  then show ?case by (simp add: emits_def)
next
  case (Cons tk ts)
  obtain arts st1 where f: "fetch_news_for_ticker e tk st = (arts, st1)"
    by (cases "fetch_news_for_ticker e tk st")
  obtain later st3 where l: "check_tickers e ts (process_all e arts st1) = (later, st3)"
    by (cases "check_tickers e ts (process_all e arts st1)")
  from Cons.prems f l have eq: "em = arts @ later" "st' = st3" by simp_all
  have 1: "emits e st arts st1" by (rule fetch_emits[OF f])
  have 2: "emits e st1 [] (process_all e arts st1)"
    by (rule emits_Nil) (simp_all add: process_all_frame)
  have 3: "emits e (process_all e arts st1) later st3" by (rule Cons.IH[OF l])
  from emits_append[OF emits_append[OF 1 2] 3] eq show ?case by simp
qed

lemma check_news_emits:
  "check_news e st = (em, st') \<Longrightarrow> emits e st em st'"
proof -
  assume a: "check_news e st = (em, st')"
  let ?st0 = "log_to INFO (Checking (py_join '', '' (tickers (config st)))) st"
  obtain em1 st1 where c: "check_tickers e (tickers (config ?st0)) ?st0 = (em1, st1)"
    by (cases "check_tickers e (tickers (config ?st0)) ?st0")
  from check_tickers_emits[OF c] have "emits e st em1 st1" by (simp add: emits_def)
  moreover from a c have "em = em1" by (simp add: check_news_def Let_def)
  moreover from a c have "config st' = config st1" "ticker_to_company st' = ticker_to_company st1"
     "processed_articles st' = processed_articles st1"
    by (auto simp: check_news_def Let_def split: if_splits)
  ultimately show ?thesis by (simp add: emits_def)
qed

lemma cycles_emits:
  "cycles e n st = (em, st') \<Longrightarrow> emits e st em st'"
proof (induction n arbitrary: st em st')
  case 0
  then show ?case by (simp add: emits_def)
next
  case (Suc n)
  obtain em1 st1 where c: "check_news e st = (em1, st1)" by (cases "check_news e st")
  obtain em2 st2 where d: "cycles e n st1 = (em2, st2)" by (cases "cycles e n st1")
  from Suc.prems c d have eq: "em = em1 @ em2" "st' = st2" by simp_all
  from emits_append[OF check_news_emits[OF c] Suc.IH[OF d]] eq show ?case by simp
qed

lemma fetch_raises:
  "fst (fetch_body e tk st) = Inl x \<Longrightarrow>
     fetch_news_for_ticker e tk st = ([], log_to ERROR (ErrorFetching tk x) (snd (fetch_body e tk st)))"
  by (cases "fetch_body e tk st") (simp add: fetch_news_for_ticker_def)

lemma fetch_body_Raises:
  "api e (api_calls st) (search_request e tk st) = Raises x \<Longrightarrow> fst (fetch_body e tk st) = Inl x"
  by (simp add: fetch_body_eq)

lemma fetch_body_no_url:
  assumes "api e (api_calls st) (search_request e tk st) = Response rs"
    and "\<exists>r\<in>set rs. r_url r = None"
  shows "fst (fetch_body e tk st) = Inl (KeyError ''url'')"
proof -
  obtain res st' where b: "fetch_body e tk st = (res, st')" by (cases "fetch_body e tk st")
  from fetch_body_Response(2)[OF assms(1) b] assms(2) show ?thesis
    using b by (auto split: if_splits)
qed

text \<open>
  Claim C3. For every ticker, if the \<open>try\<close> block of \<open>fetch_news_for_ticker\<close> raises an
  exception \<open>x\<close>, the function logs the failure for that ticker at level ERROR and
  returns the empty list, and the loop of \<open>check_news\<close> goes on with the remaining
  tickers, in the configured order, from the state the failed fetch left. The block raises
  when the API call raises, and when an article of the response has no \<open>url\<close>. The
  function returns a list and a state, never an exception.
\<close>

theorem fetch_failure_contained:
  "(fst (fetch_body e tk st) = Inl x \<longrightarrow>
      fetch_news_for_ticker e tk st =
        ([], log_to ERROR (ErrorFetching tk x) (snd (fetch_body e tk st))) \<and>
      check_tickers e (tk # rest) st =
        check_tickers e rest (log_to ERROR (ErrorFetching tk x) (snd (fetch_body e tk st)))) \<and>
   (api e (api_calls st) (search_request e tk st) = Raises x \<longrightarrow>
      fst (fetch_body e tk st) = Inl x) \<and>
   (api e (api_calls st) (search_request e tk st) = Response rs \<and> (\<exists>r\<in>set rs. r_url r = None) \<longrightarrow>
      fst (fetch_body e tk st) = Inl (KeyError ''url''))"
proof (intro conjI impI)
  assume a: "fst (fetch_body e tk st) = Inl x"
  show f: "fetch_news_for_ticker e tk st =
        ([], log_to ERROR (ErrorFetching tk x) (snd (fetch_body e tk st)))"
    by (rule fetch_raises[OF a])
  show "check_tickers e (tk # rest) st =
        check_tickers e rest (log_to ERROR (ErrorFetching tk x) (snd (fetch_body e tk st)))"
    by (simp add: f)
next
  assume "api e (api_calls st) (search_request e tk st) = Raises x"
  then show "fst (fetch_body e tk st) = Inl x" by (rule fetch_body_Raises)
next
  assume "api e (api_calls st) (search_request e tk st) = Response rs \<and> (\<exists>r\<in>set rs. r_url r = None)"
  then show "fst (fetch_body e tk st) = Inl (KeyError ''url'')"
    using fetch_body_no_url by blast
qed

lemmas run_eval =
  NewsMonitor_init_def check_news_def fetch_news_for_ticker_def fetch_body_def search_request_def
  log_to_def build_ticker_mapping_def unexpected_kwarg_def NewsArticle_fields_def fetch_kwargs_def
  dict_get_def extract_matched_keywords_def article_text_def build_search_query_def quoted_def
  process_article_def process_article_with_def write_block_def analyze_with_ai_def ai_payload_def
  truncated_desc_def Let_def article_loop.simps

lemmas ex_eval =
  ex_config_def ex_article_def ex_no_url_def ex_plain_def ex_env_partial_def ex_env_same_def
  ex_env_b3_def ex_two_tickers_def ex_emitted_def ex_plain_later_def ex_env_later_def

text \<open>
  The search for B3 fails with a network error; the cycle goes on with ADM and emits its
  article.
\<close>

theorem fetch_failure_contained_witness:
  "fst (fetch_body ex_env_b3 ''B3'' ex_two_tickers) = Inl (ApiException ''network'') \<and>
   fetch_news_for_ticker ex_env_b3 ''B3'' ex_two_tickers =
     ([], log_to ERROR (ErrorFetching ''B3'' (ApiException ''network''))
            (snd (fetch_body ex_env_b3 ''B3'' ex_two_tickers))) \<and>
   check_tickers ex_env_b3 [''B3'', ''ADM''] ex_two_tickers =
     check_tickers ex_env_b3 [''ADM'']
       (log_to ERROR (ErrorFetching ''B3'' (ApiException ''network''))
          (snd (fetch_body ex_env_b3 ''B3'' ex_two_tickers))) \<and>
   map url (fst (check_tickers ex_env_b3 [''B3'', ''ADM''] ex_two_tickers)) = [PStr ''http://a'']"
proof -
  have h: "fst (fetch_body ex_env_b3 ''B3'' ex_two_tickers) = Inl (ApiException ''network'')"
    by (simp add: run_eval ex_eval sublist_code)
  have v: "map url (fst (check_tickers ex_env_b3 [''B3'', ''ADM''] ex_two_tickers)) = [PStr ''http://a'']"
    by (simp add: run_eval ex_eval sublist_code char_eval)
  from fetch_failure_contained[of ex_env_b3 "''B3''" ex_two_tickers "ApiException ''network''" "[''ADM'']"] h v
  show ?thesis by blast
qed

lemma write_block_logged:
  "logged (write_block e a st) =
     logged st @
     [(INFO, Alert (''soy news alert - '' @ clock e (clock_reads st))),
      (INFO, Text (nl @ rule80)),
      (INFO, Text rule80),
      (INFO, Text (''Ticker: '' @ (case ticker a of None \<Rightarrow> ''None'' | Some t \<Rightarrow> t))),
      (INFO, Text (''Title: '' @ py_str (title a))),
      (INFO, Text (''Published: '' @ py_str (published_at a))),
      (INFO, Text (''URL: '' @ py_str (url a))),
      (INFO, Text (''Matched Keywords: '' @ py_join '', '' (matched_keywords a)))] @
     (if truthy (description a)
      then [(INFO, Text (''Description: '' @ truncated_desc (py_str (description a)) @ nl))]
      else [])"
  by (simp add: write_block_def Let_def)

text \<open>
  Claim C8. For every URL, \<open>analyze_with_ai\<close> returns the same payload: sentiment
  neutral, impact score 0.5, a fixed summary, recommendation monitor; so
  \<open>process_article\<close> ends every block with the line of that summary. For every article
  and every analysis method that raises \<open>x\<close> when it is called after the block has been
  written, \<open>process_article\<close> logs the error and then the closing rule, and no
  summary line.
\<close>

theorem ai_stub_and_fallback:
  "analyze_with_ai u st = (Inr ai_payload, log_to INFO (AIRequested u) st) \<and>
   ai_payload =
     [(''sentiment'', AStr ''neutral''), (''impact_score'', ANum (1 / 2)),
      (''summary'', AStr ''AI analysis not yet implemented''),
      (''recommendation'', AStr ''monitor'')] \<and>
   process_article e a st =
     log_to INFO (AIAnalysis (AStr ''AI analysis not yet implemented''))
       (log_to INFO (AIRequested (url a)) (write_block e a st)) \<and>
   (analyze (url a) (write_block e a st) = (Inl x, st1) \<longrightarrow>
      process_article_with analyze e a st =
        log_to INFO (Text (rule80 @ nl)) (log_to ERROR (ErrorAI x) st1))"
  by (simp add: analyze_with_ai_def ai_payload_def process_article_def process_article_with_def
      dict_get_def)

text \<open>
  An analysis method that always raises.
\<close>

theorem ai_stub_and_fallback_witness:
  "(\<lambda>u s. (Inl (ApiException ''down''), s)) (url (ex_emitted ''Boa safra''))
       (write_block ex_env_same (ex_emitted ''Boa safra'') (NewsMonitor_init ex_config)) =
     (Inl (ApiException ''down'') :: exn + (string \<times> aival) list,
      write_block ex_env_same (ex_emitted ''Boa safra'') (NewsMonitor_init ex_config)) \<and>
   process_article_with (\<lambda>u s. (Inl (ApiException ''down''), s)) ex_env_same
       (ex_emitted ''Boa safra'') (NewsMonitor_init ex_config) =
     log_to INFO (Text (rule80 @ nl))
       (log_to ERROR (ErrorAI (ApiException ''down''))
          (write_block ex_env_same (ex_emitted ''Boa safra'') (NewsMonitor_init ex_config)))"
  using ai_stub_and_fallback[where e = ex_env_same and a = "ex_emitted ''Boa safra''"
      and st = "NewsMonitor_init ex_config"
      and analyze = "\<lambda>u s. (Inl (ApiException ''down''), s)" and x = "ApiException ''down''"
      and ?st1.0 = "write_block ex_env_same (ex_emitted ''Boa safra'') (NewsMonitor_init ex_config)"]
  by simp

text \<open>
  Claim C9, as amended. A description is logged when it is truthy, that is a non-empty
  string. Then the description line is the ninth and last line of the block: it holds the
  first 200 characters followed by three dots when the description is longer than 200
  characters, and the description as it is otherwise. For a description that is empty or
  null the block has eight lines and ends with the matched keywords: no description line
  is logged. After the block come the two lines of the AI analysis.
\<close>

theorem description_line:
  "(truthy (description a) \<longrightarrow>
      length (logged (write_block e a st)) = length (logged st) + 9 \<and>
      last (logged (write_block e a st)) =
        (INFO, Text (''Description: '' @
           (if 200 < length (py_str (description a))
            then take 200 (py_str (description a)) @ ''...''
            else py_str (description a)) @ nl))) \<and>
   (\<not> truthy (description a) \<longrightarrow>
      length (logged (write_block e a st)) = length (logged st) + 8 \<and>
      last (logged (write_block e a st)) =
        (INFO, Text (''Matched Keywords: '' @ py_join '', '' (matched_keywords a)))) \<and>
   truthy (description a) = (\<exists>d. description a = PStr d \<and> d \<noteq> []) \<and>
   logged (process_article e a st) =
     logged (write_block e a st) @
     [(INFO, AIRequested (url a)), (INFO, AIAnalysis (AStr ''AI analysis not yet implemented''))]"
proof -
  have t: "truthy (description a) = (\<exists>d. description a = PStr d \<and> d \<noteq> [])"
    by (cases "description a") auto
  have p: "logged (process_article e a st) =
     logged (write_block e a st) @
     [(INFO, AIRequested (url a)), (INFO, AIAnalysis (AStr ''AI analysis not yet implemented''))]"
    by (simp add: process_article_def process_article_with_def analyze_with_ai_def ai_payload_def
        dict_get_def)
  show ?thesis
    using t p by (simp add: write_block_logged truncated_desc_def)
qed

text \<open>
  A description of 250 characters is logged as its first 200 and three dots; an empty
  one is not logged.
\<close>

theorem description_line_witness:
  "truthy (description (ex_emitted (replicate 250 CHR ''x''))) \<and>
   length (py_str (description (ex_emitted (replicate 250 CHR ''x'')))) = 250 \<and>
   last (logged (write_block ex_env_same (ex_emitted (replicate 250 CHR ''x'')) (NewsMonitor_init ex_config))) =
     (INFO, Text (''Description: '' @ replicate 200 CHR ''x'' @ ''...'' @ nl)) \<and>
   \<not> truthy (description (ex_emitted [])) \<and>
   last (logged (write_block ex_env_same (ex_emitted []) (NewsMonitor_init ex_config))) =
     (INFO, Text ''Matched Keywords: safra'')"
proof -
  have a: "truthy (description (ex_emitted (replicate 250 CHR ''x'')))"
    by (simp add: ex_emitted_def)
  have b: "\<not> truthy (description (ex_emitted []))"
    by (simp add: ex_emitted_def)
  have c: "py_str (description (ex_emitted (replicate 250 CHR ''x''))) = replicate 250 CHR ''x''"
    by (simp add: ex_emitted_def)
  have d: "matched_keywords (ex_emitted []) = [''safra'']"
    by (simp add: ex_emitted_def)
  from description_line[of "ex_emitted (replicate 250 CHR ''x'')" ex_env_same "NewsMonitor_init ex_config"] a c
  have 1: "last (logged (write_block ex_env_same (ex_emitted (replicate 250 CHR ''x'')) (NewsMonitor_init ex_config))) =
     (INFO, Text (''Description: '' @ replicate 200 CHR ''x'' @ ''...'' @ nl))"
    by simp
  from description_line[of "ex_emitted []" ex_env_same "NewsMonitor_init ex_config"] b d
  have 2: "last (logged (write_block ex_env_same (ex_emitted []) (NewsMonitor_init ex_config))) =
     (INFO, Text ''Matched Keywords: safra'')"
    by simp
  from a b c 1 2 show ?thesis by simp
qed

text \<open>
  Claim C9 as stated fails for an emitted article whose description is the empty string:
  it is no longer than 200 characters, and no description line is logged.
\<close>

theorem empty_description_not_logged:
  "description (ex_emitted []) = PStr [] \<and>
   length (py_str (description (ex_emitted []))) \<le> 200 \<and>
   logged (process_article ex_env_same (ex_emitted []) (NewsMonitor_init ex_config)) =
     [(INFO, Alert ''soy news alert - 2025-01-02 10:00:00''),
      (INFO, Text (nl @ rule80)),
      (INFO, Text rule80),
      (INFO, Text ''Ticker: Brasil''),
      (INFO, Text ''Title: Safra recorde''),
      (INFO, Text ''Published: 2025-01-01T00:00:00Z''),
      (INFO, Text ''URL: http://a''),
      (INFO, Text ''Matched Keywords: safra''),
      (INFO, AIRequested (PStr ''http://a'')),
      (INFO, AIAnalysis (AStr ''AI analysis not yet implemented''))]"
  by (simp add: run_eval ex_eval)

lemma fetch_cases:
  obtains (raises) x where "api e (api_calls st) (search_request e tk st) = Raises x"
      "fst (fetch_news_for_ticker e tk st) = []"
      "processed_articles (snd (fetch_news_for_ticker e tk st)) = processed_articles st"
  | (broken) rs where "api e (api_calls st) (search_request e tk st) = Response rs"
      "\<not> (\<forall>r\<in>set rs. r_url r \<noteq> None)"
      "fst (fetch_news_for_ticker e tk st) = []"
      "processed_articles (snd (fetch_news_for_ticker e tk st)) =
         processed_articles st \<union>
         matching_urls (price_moving_keywords (config st)) (takeWhile (\<lambda>r. r_url r \<noteq> None) rs)"
  | (returns) rs where "api e (api_calls st) (search_request e tk st) = Response rs"
      "\<forall>r\<in>set rs. r_url r \<noteq> None"
      "distinct (map url (fst (fetch_news_for_ticker e tk st)))"
      "url ` set (fst (fetch_news_for_ticker e tk st)) =
         processed_articles (snd (fetch_news_for_ticker e tk st)) - processed_articles st"
      "processed_articles (snd (fetch_news_for_ticker e tk st)) =
         processed_articles st \<union> matching_urls (price_moving_keywords (config st)) rs"
proof (cases "api e (api_calls st) (search_request e tk st)")
  case (Raises x)
  then have "fst (fetch_body e tk st) = Inl x"
    by (simp add: fetch_body_eq)
  then have "fetch_news_for_ticker e tk st =
      ([], log_to ERROR (ErrorFetching tk x) (snd (fetch_body e tk st)))"
    by (rule fetch_raises)
  moreover have "processed_articles (snd (fetch_body e tk st)) = processed_articles st"
    using Raises by (simp add: fetch_body_eq)
  ultimately show ?thesis using raises[OF Raises] by simp
next
  case (Response rs)
  obtain res st' where b: "fetch_body e tk st = (res, st')" by (cases "fetch_body e tk st")
  note m = fetch_body_Response(1)[OF Response b]
  note o = fetch_body_Response(2)[OF Response b]
  show ?thesis
  proof (cases "\<forall>r\<in>set rs. r_url r \<noteq> None")
    case True
    with o obtain new where new: "res = Inr new" "distinct (map url new)"
      "url ` set new = processed_articles st' - processed_articles st" by auto
    from b new(1) have f: "fetch_news_for_ticker e tk st = (new, st')"
      by (simp add: fetch_news_for_ticker_def)
    have tw: "takeWhile (\<lambda>r. r_url r \<noteq> None) rs = rs" using True by simp
    show ?thesis
    proof (rule returns[OF Response True])
      show "distinct (map url (fst (fetch_news_for_ticker e tk st)))"
        using f new(2) by simp
      show "url ` set (fst (fetch_news_for_ticker e tk st)) =
         processed_articles (snd (fetch_news_for_ticker e tk st)) - processed_articles st"
        using f new(3) by simp
      have "processed_articles st' =
         processed_articles st \<union> matching_urls (price_moving_keywords (config st)) rs"
        using m unfolding tw .
      then show "processed_articles (snd (fetch_news_for_ticker e tk st)) =
         processed_articles st \<union> matching_urls (price_moving_keywords (config st)) rs"
        using f by simp
    qed
  next
    case False
    with o have "res = Inl (KeyError ''url'')" by simp
    with b have f: "fetch_news_for_ticker e tk st = ([], log_to ERROR (ErrorFetching tk (KeyError ''url'')) st')"
      by (simp add: fetch_news_for_ticker_def)
    show ?thesis
    proof (rule broken[OF Response False])
      show "fst (fetch_news_for_ticker e tk st) = []" using f by simp
      show "processed_articles (snd (fetch_news_for_ticker e tk st)) =
         processed_articles st \<union>
         matching_urls (price_moving_keywords (config st)) (takeWhile (\<lambda>r. r_url r \<noteq> None) rs)"
        using f m by simp
    qed
  qed
qed

lemma fetch_frame:
  "config (snd (fetch_news_for_ticker e tk st)) = config st"
  "ticker_to_company (snd (fetch_news_for_ticker e tk st)) = ticker_to_company st"
  "api_calls (snd (fetch_news_for_ticker e tk st)) = api_calls st + 1"
proof -
  obtain res st' where b: "fetch_body e tk st = (res, st')" by (cases "fetch_body e tk st")
  have fr: "config st' = config st" "ticker_to_company st' = ticker_to_company st"
    "api_calls st' = api_calls st + 1"
    using fetch_body_frame[OF b] by simp_all
  have "snd (fetch_news_for_ticker e tk st) = st' \<or>
        (\<exists>x. snd (fetch_news_for_ticker e tk st) = log_to ERROR (ErrorFetching tk x) st')"
    using b by (cases res) (auto simp: fetch_news_for_ticker_def)
  then show "config (snd (fetch_news_for_ticker e tk st)) = config st"
    "ticker_to_company (snd (fetch_news_for_ticker e tk st)) = ticker_to_company st"
    "api_calls (snd (fetch_news_for_ticker e tk st)) = api_calls st + 1"
    using fr by auto
qed

lemma matching_urls_mono: "set rs \<subseteq> set rs' \<Longrightarrow> matching_urls kws rs \<subseteq> matching_urls kws rs'"
  by (auto simp: matching_urls_def)

lemma matching_urls_occurs:
  "u \<in> matching_urls kws rs = (\<exists>r\<in>set rs. r_url r = Some u \<and> (\<exists>k\<in>set kws. occurs_in k (article_text r)))"
  by (simp add: matching_urls_def matches_occurs)

lemma fetch_marks:
  assumes "api e (api_calls st) (search_request e tk st) = Response rs"
  shows "processed_articles (snd (fetch_news_for_ticker e tk st)) \<subseteq>
           processed_articles st \<union> matching_urls (price_moving_keywords (config st)) rs"
proof (cases rule: fetch_cases[of e st tk])
  case (raises x)
  then show ?thesis by simp
next
  case (broken rs')
  with assms have eq: "rs' = rs" by simp
  have "set (takeWhile (\<lambda>r. r_url r \<noteq> None) rs) \<subseteq> set rs"
    by (auto dest: set_takeWhileD)
  from matching_urls_mono[OF this] broken(4) eq show ?thesis by blast
next
  case (returns rs')
  with assms have "rs' = rs" by simp
  with returns(5) show ?thesis by simp
qed

lemma fetch_emitted_fresh:
  "url ` set (fst (fetch_news_for_ticker e tk st)) \<subseteq>
     processed_articles (snd (fetch_news_for_ticker e tk st)) - processed_articles st"
  and fetch_processed_mono:
  "processed_articles st \<subseteq> processed_articles (snd (fetch_news_for_ticker e tk st))"
proof -
  have "emits e st (fst (fetch_news_for_ticker e tk st)) (snd (fetch_news_for_ticker e tk st))"
    by (rule fetch_emits) simp
  then show "url ` set (fst (fetch_news_for_ticker e tk st)) \<subseteq>
     processed_articles (snd (fetch_news_for_ticker e tk st)) - processed_articles st"
    and "processed_articles st \<subseteq> processed_articles (snd (fetch_news_for_ticker e tk st))"
    by (simp_all add: emits_def)
qed

lemma article_loop_bt_Cons:
  "article_loop_bt tk (a # rest) acc st =
     (case r_url a of
        None \<Rightarrow> (Inl (KeyError ''url''), st)
      | Some u \<Rightarrow>
          if u \<in> processed_articles st then article_loop_bt tk rest acc st
          else (case source_name a of
                  Inl x \<Rightarrow> (Inl x, st)
                | Inr src \<Rightarrow> (Inl (TypeError ''source''), st)))"
  by (simp add: kwargs_bt_undeclared split: option.splits sum.splits)

declare article_loop_bt.simps(2) [simp del]

lemma article_loop_bt_state: "snd (article_loop_bt tk rs acc st) = st"
  by (induction rs) (auto simp: article_loop_bt_Cons split: option.splits sum.splits)

lemma article_loop_bt_all_seen:
  "\<forall>r\<in>set rs. seen st r \<Longrightarrow> article_loop_bt tk rs acc st = (Inr acc, st)"
  by (induction rs) (auto simp: article_loop_bt_Cons seen_def split: option.splits sum.splits)

lemma article_loop_bt_raises:
  "\<exists>r\<in>set rs. \<not> seen st r \<Longrightarrow> \<exists>x. article_loop_bt tk rs acc st = (Inl x, st)"
proof (induction rs)
  case Nil
  then show ?case by simp
next
  case (Cons a rs)
  show ?case
  proof (cases "seen st a")
    case True
    with Cons.prems have "\<exists>r\<in>set rs. \<not> seen st r" by auto
    from Cons.IH[OF this] True show ?thesis
      by (auto simp: article_loop_bt_Cons seen_def)
  next
    case False
    then show ?thesis
      by (auto simp: article_loop_bt_Cons seen_def split: option.splits sum.splits)
  qed
qed

lemma article_loop_bt_TypeError:
  assumes "\<exists>r\<in>set rs. \<not> seen st r"
    and "\<forall>r\<in>set rs. r_url r \<noteq> None \<and> r_source r \<noteq> Some SourceOther"
  shows "article_loop_bt tk rs acc st = (Inl (TypeError ''source''), st)"
  using assms
proof (induction rs)
  case Nil
  then show ?case by simp
next
  case (Cons a rs)
  from Cons.prems(2) obtain u where u: "r_url a = Some u" by auto
  from Cons.prems(2) have src: "\<exists>v. source_name a = Inr v"
    by (cases "r_source a") (auto simp: source_name_def split: source_val.splits)
  show ?case
  proof (cases "u \<in> processed_articles st")
    case True
    with u Cons.prems have "\<exists>r\<in>set rs. \<not> seen st r" by (auto simp: seen_def)
    from Cons.IH[OF this] Cons.prems(2) True u show ?thesis
      by (simp add: article_loop_bt_Cons)
  next
    case False
    with u src show ?thesis by (auto simp: article_loop_bt_Cons)
  qed
qed

lemma fetch_body_bt_eq:
  "fetch_body_bt e tk st =
     (case api e (api_calls st) (search_request_bt e tk st) of
        Raises x \<Rightarrow>
          (Inl x, (log_to DEBUG (Text (''Searching for ticker '' @ tk @ '' with query: '' @ rq_q (search_request_bt e tk st))) st)
                    \<lparr>clock_reads := clock_reads st + 1, api_calls := api_calls st + 1\<rparr>)
      | Response rs \<Rightarrow>
          article_loop_bt tk rs []
            (log_to INFO (FoundTotal (length rs) tk)
              ((log_to DEBUG (Text (''Searching for ticker '' @ tk @ '' with query: '' @ rq_q (search_request_bt e tk st))) st)
                    \<lparr>clock_reads := clock_reads st + 1, api_calls := api_calls st + 1\<rparr>)))"
  by (simp add: fetch_body_bt_def Let_def split: api_reply.splits)

lemma fetch_body_bt_outcome:
  "(fst (fetch_body_bt e tk st) = Inr [] \<or> (\<exists>x. fst (fetch_body_bt e tk st) = Inl x)) \<and>
   processed_articles (snd (fetch_body_bt e tk st)) = processed_articles st \<and>
   config (snd (fetch_body_bt e tk st)) = config st"
proof (cases "api e (api_calls st) (search_request_bt e tk st)")
  case (Raises x)
  then show ?thesis by (simp add: fetch_body_bt_eq)
next
  case (Response rs)
  let ?st0 = "log_to INFO (FoundTotal (length rs) tk)
              ((log_to DEBUG (Text (''Searching for ticker '' @ tk @ '' with query: '' @ rq_q (search_request_bt e tk st))) st)
                    \<lparr>clock_reads := clock_reads st + 1, api_calls := api_calls st + 1\<rparr>)"
  have b: "fetch_body_bt e tk st = article_loop_bt tk rs [] ?st0"
    using Response by (simp add: fetch_body_bt_eq)
  have s: "snd (article_loop_bt tk rs [] ?st0) = ?st0" by (rule article_loop_bt_state)
  have "fst (article_loop_bt tk rs [] ?st0) = Inr [] \<or> (\<exists>x. fst (article_loop_bt tk rs [] ?st0) = Inl x)"
  proof (cases "\<forall>r\<in>set rs. seen ?st0 r")
    case True
    from article_loop_bt_all_seen[OF this] show ?thesis by simp
  next
    case False
    then have "\<exists>r\<in>set rs. \<not> seen ?st0 r" by simp
    from article_loop_bt_raises[OF this] show ?thesis by (metis fst_conv)
  qed
  with b s show ?thesis by simp
qed

lemma fetch_bt_nothing:
  "fst (fetch_news_for_ticker_bt e tk st) = [] \<and>
   processed_articles (snd (fetch_news_for_ticker_bt e tk st)) = processed_articles st \<and>
   config (snd (fetch_news_for_ticker_bt e tk st)) = config st"
proof -
  obtain res st' where b: "fetch_body_bt e tk st = (res, st')" by (cases "fetch_body_bt e tk st")
  from fetch_body_bt_outcome[of e tk st] b
  have r: "res = Inr [] \<or> (\<exists>x. res = Inl x)" and p: "processed_articles st' = processed_articles st"
    and c: "config st' = config st" by simp_all
  from r show ?thesis
  proof
    assume "res = Inr []"
    then have "fetch_news_for_ticker_bt e tk st = ([], st')"
      unfolding fetch_news_for_ticker_bt_def b by simp
    with p c show ?thesis by simp
  next
    assume "\<exists>x. res = Inl x"
    then obtain x where "res = Inl x" ..
    then have "fetch_news_for_ticker_bt e tk st = ([], log_to ERROR (ErrorFetching tk x) st')"
      unfolding fetch_news_for_ticker_bt_def b by simp
    with p c show ?thesis by simp
  qed
qed

lemma check_tickers_bt_nothing:
  "fst (check_tickers_bt e ts st) = Inr [] \<and>
   processed_articles (snd (check_tickers_bt e ts st)) = processed_articles st \<and>
   config (snd (check_tickers_bt e ts st)) = config st"
proof (induction ts arbitrary: st)
  case Nil
  then show ?case by simp
next
  case (Cons tk ts)
  obtain arts st1 where f: "fetch_news_for_ticker_bt e tk st = (arts, st1)"
    by (cases "fetch_news_for_ticker_bt e tk st")
  with fetch_bt_nothing[of e tk st] have a: "arts = []"
    "processed_articles st1 = processed_articles st" "config st1 = config st" by simp_all
  obtain r st3 where c: "check_tickers_bt e ts st1 = (r, st3)" by (cases "check_tickers_bt e ts st1")
  with Cons.IH[of st1] have i: "r = Inr []" "processed_articles st3 = processed_articles st1"
    "config st3 = config st1" by simp_all
  from f a c i show ?case by simp
qed

lemma check_news_bt_nothing:
  "fst (check_news_bt e st) = Inr [] \<and>
   processed_articles (snd (check_news_bt e st)) = processed_articles st \<and>
   config (snd (check_news_bt e st)) = config st"
proof -
  let ?st0 = "log_to INFO (Checking (py_join '', '' (tickers (config st)))) st"
  obtain r st1 where c: "check_tickers_bt e (tickers (config ?st0)) ?st0 = (r, st1)"
    by (cases "check_tickers_bt e (tickers (config ?st0)) ?st0")
  with check_tickers_bt_nothing[of e "tickers (config ?st0)" ?st0]
  have "r = Inr []" "processed_articles st1 = processed_articles st" "config st1 = config st"
    by simp_all
  with c show ?thesis by (simp add: check_news_bt_def Let_def)
qed

lemma cycles_bt_nothing:
  "fst (cycles_bt e n st) = Inr [] \<and>
   processed_articles (snd (cycles_bt e n st)) = processed_articles st \<and>
   config (snd (cycles_bt e n st)) = config st"
proof (induction n arbitrary: st)
  case 0
  then show ?case by simp
next
  case (Suc n)
  obtain r st1 where c: "check_news_bt e st = (r, st1)" by (cases "check_news_bt e st")
  with check_news_bt_nothing[of e st] have a: "r = Inr []"
    "processed_articles st1 = processed_articles st" "config st1 = config st" by simp_all
  obtain r2 st2 where d: "cycles_bt e n st1 = (r2, st2)" by (cases "cycles_bt e n st1")
  with Suc.IH[of st1] have i: "r2 = Inr []" "processed_articles st2 = processed_articles st1"
    "config st2 = config st1" by simp_all
  from c a d i show ?case by simp
qed

text \<open>
  Claim C2. In \<open>backtest.py\<close> the call \<open>NewsArticle(...)\<close> of
  \<open>fetch_news_for_ticker\<close> passes \<open>source\<close> and \<open>description\<close>, which the dataclass
  does not declare; \<open>source\<close> is the first, and the call raises \<open>TypeError\<close> for it. So
  the loop over a response that holds an article with a URL not yet in
  \<open>processed_articles\<close> raises, and leaves the state as it was; it raises this
  \<open>TypeError\<close> when every article of the response has a URL and a source that is absent or
  an object. The handler makes the fetch return the empty list: every fetch returns the
  empty list and adds no URL, and every cycle emits no article.
\<close>

theorem backtest_emits_nothing:
  "unexpected_kwarg NewsArticle_bt_fields fetch_kwargs_bt = Some ''source'' \<and>
   (r \<in> set rs \<and> r_url r = Some u \<and> u \<notin> processed_articles st \<longrightarrow>
      (\<exists>x. article_loop_bt tk rs acc st = (Inl x, st))) \<and>
   (r \<in> set rs \<and> r_url r = Some u \<and> u \<notin> processed_articles st \<and>
    (\<forall>r'\<in>set rs. r_url r' \<noteq> None \<and> r_source r' \<noteq> Some SourceOther) \<longrightarrow>
      article_loop_bt tk rs acc st = (Inl (TypeError ''source''), st)) \<and>
   fst (fetch_news_for_ticker_bt e tk st) = [] \<and>
   processed_articles (snd (fetch_news_for_ticker_bt e tk st)) = processed_articles st \<and>
   fst (check_news_bt e st) = Inr [] \<and>
   processed_articles (snd (check_news_bt e st)) = processed_articles st"
proof -
  have un: "\<exists>r\<in>set rs. \<not> seen st r"
    if "r \<in> set rs" "r_url r = Some u" "u \<notin> processed_articles st"
  proof
    show "r \<in> set rs" by (rule that)
    show "\<not> seen st r" using that(2,3) by (simp add: seen_def)
  qed
  have 1: "\<exists>x. article_loop_bt tk rs acc st = (Inl x, st)"
    if "r \<in> set rs \<and> r_url r = Some u \<and> u \<notin> processed_articles st"
    using article_loop_bt_raises[OF un] that by blast
  have 2: "article_loop_bt tk rs acc st = (Inl (TypeError ''source''), st)"
    if "r \<in> set rs \<and> r_url r = Some u \<and> u \<notin> processed_articles st \<and>
        (\<forall>r'\<in>set rs. r_url r' \<noteq> None \<and> r_source r' \<noteq> Some SourceOther)"
    using article_loop_bt_TypeError[OF un] that by blast
  from 1 2 kwargs_bt_undeclared fetch_bt_nothing[of e tk st] check_news_bt_nothing[of e st]
  show ?thesis by blast
qed

text \<open>
  An article whose title holds the keyword safra, with a URL not seen before: the loop
  raises \<open>TypeError\<close>, and the cycle emits nothing.
\<close>

theorem backtest_emits_nothing_witness:
  "ex_article \<in> set [ex_article] \<and> r_url ex_article = Some (PStr ''http://a'') \<and>
   PStr ''http://a'' \<notin> processed_articles (NewsMonitor_init_bt (main_config_bt [''adm''] ''key'' None)) \<and>
   r_source ex_article \<noteq> Some SourceOther \<and>
   ''safra'' \<in> set (extract_matched_keywords default_keywords_bt (article_text ex_article)) \<and>
   article_loop_bt ''ADM'' [ex_article] [] (NewsMonitor_init_bt (main_config_bt [''adm''] ''key'' None)) =
     (Inl (TypeError ''source''), NewsMonitor_init_bt (main_config_bt [''adm''] ''key'' None)) \<and>
   fst (check_news_bt ex_env_same (NewsMonitor_init_bt (main_config_bt [''adm''] ''key'' None))) = Inr []"
proof -
  let ?st = "NewsMonitor_init_bt (main_config_bt [''adm''] ''key'' None)"
  have a: "ex_article \<in> set [ex_article]" by simp
  have b: "r_url ex_article = Some (PStr ''http://a'')" by (simp add: ex_article_def)
  have c: "PStr ''http://a'' \<notin> processed_articles ?st" by (simp add: NewsMonitor_init_bt_def)
  have d: "\<forall>r'\<in>set [ex_article]. r_url r' \<noteq> None \<and> r_source r' \<noteq> Some SourceOther"
    by (simp add: ex_article_def)
  have k: "''safra'' \<in> set (extract_matched_keywords default_keywords_bt (article_text ex_article))"
    by (simp add: extract_matched_keywords_def default_keywords_bt_def article_text_def
        ex_article_def dict_get_def char_eval)
  from backtest_emits_nothing[of ex_article "[ex_article]" "PStr ''http://a''" ?st "''ADM''" "[]" ex_env_same]
       a b c d
  have "article_loop_bt ''ADM'' [ex_article] [] ?st = (Inl (TypeError ''source''), ?st)"
    and "fst (check_news_bt ex_env_same ?st) = Inr []"
    by blast+
  with a b c d k show ?thesis by simp
qed

lemma takeWhile_until_bad:
  "\<forall>r\<in>set pre. P r \<Longrightarrow> \<not> P bad \<Longrightarrow> takeWhile P (pre @ bad # post) = pre"
  by (induction pre) auto

lemma cycles_fresh:
  "url ` set (fst (cycles e n st)) \<inter> processed_articles st = {}"
  and cycles_distinct: "distinct (map url (fst (cycles e n st)))"
  and cycles_sourced:
    "\<forall>a\<in>set (fst (cycles e n st)). sourced e (price_moving_keywords (config st)) a"
  and cycles_config: "config (snd (cycles e n st)) = config st"
proof -
  have "emits e st (fst (cycles e n st)) (snd (cycles e n st))"
    by (rule cycles_emits) simp
  then show "url ` set (fst (cycles e n st)) \<inter> processed_articles st = {}"
    and "distinct (map url (fst (cycles e n st)))"
    and "\<forall>a\<in>set (fst (cycles e n st)). sourced e (price_moving_keywords (config st)) a"
    and "config (snd (cycles e n st)) = config st"
    unfolding emits_def by blast+
qed

text \<open>
  Claim C10. Let a fetch of \<open>stock_news_monitor.py\<close> receive a response whose articles
  \<open>pre\<close> all have a URL and are followed by an article without the key \<open>url\<close>. The
  loop raises at that article; the fetch returns the empty list, and yet
  \<open>processed_articles\<close> holds, besides what it held, the URL of every article of
  \<open>pre\<close> whose text has a configured keyword. No later cycle, whatever the API returns,
  emits an article whose URL is in this set: the matching articles of \<open>pre\<close> that were
  new are never emitted. In \<open>backtest.py\<close> the fetch returns the empty list as well, and
  its loop has added no URL (claim C2).
\<close>

theorem partial_fetch_marks_seen:
  assumes "api e (api_calls st) (search_request e tk st) = Response (pre @ bad # post)"
    and "\<forall>r\<in>set pre. r_url r \<noteq> None"
    and "r_url bad = None"
  shows "fst (fetch_news_for_ticker e tk st) = [] \<and>
    processed_articles (snd (fetch_news_for_ticker e tk st)) =
      processed_articles st \<union>
      {u. \<exists>r\<in>set pre. r_url r = Some u \<and>
            (\<exists>k\<in>set (price_moving_keywords (config st)). occurs_in k (article_text r))} \<and>
    (\<forall>e' n. \<forall>a\<in>set (fst (cycles e' n (snd (fetch_news_for_ticker e tk st)))).
        url a \<notin> processed_articles (snd (fetch_news_for_ticker e tk st))) \<and>
    fst (fetch_news_for_ticker_bt e tk st) = [] \<and>
    processed_articles (snd (fetch_news_for_ticker_bt e tk st)) = processed_articles st"
proof -
  let ?kws = "price_moving_keywords (config st)"
  have tw: "takeWhile (\<lambda>r. r_url r \<noteq> None) (pre @ bad # post) = pre"
    using assms(2,3) by (intro takeWhile_until_bad) auto
  have mu: "matching_urls ?kws pre =
      {u. \<exists>r\<in>set pre. r_url r = Some u \<and> (\<exists>k\<in>set ?kws. occurs_in k (article_text r))}"
    by (rule set_eqI) (simp add: matching_urls_occurs)
  have a: "fst (fetch_news_for_ticker e tk st) = []"
    and b: "processed_articles (snd (fetch_news_for_ticker e tk st)) =
      processed_articles st \<union> matching_urls ?kws pre"
  proof -
    show "fst (fetch_news_for_ticker e tk st) = []"
    proof (cases rule: fetch_cases[of e st tk])
      case (raises x) then show ?thesis by simp
    next
      case (broken rs) then show ?thesis by simp
    next
      case (returns rs)
      with assms(1) have "rs = pre @ bad # post" by simp
      with returns(2) assms(3) show ?thesis by simp
    qed
    show "processed_articles (snd (fetch_news_for_ticker e tk st)) =
      processed_articles st \<union> matching_urls ?kws pre"
    proof (cases rule: fetch_cases[of e st tk])
      case (raises x) with assms(1) show ?thesis by simp
    next
      case (broken rs)
      with assms(1) have eq: "rs = pre @ bad # post" by simp
      show ?thesis using broken(4) unfolding eq tw .
    next
      case (returns rs)
      with assms(1) have "rs = pre @ bad # post" by simp
      with returns(2) assms(3) show ?thesis by simp
    qed
  qed
  have c: "url x \<notin> processed_articles (snd (fetch_news_for_ticker e tk st))"
    if "x \<in> set (fst (cycles e' n (snd (fetch_news_for_ticker e tk st))))" for e' n x
    using cycles_fresh[of e' n "snd (fetch_news_for_ticker e tk st)"] that by blast
  from a b c mu fetch_bt_nothing[of e tk st] show ?thesis by simp
qed

text \<open>
  The response holds a matching article and then a malformed one: nothing is returned,
  the URL of the matching article is marked, and two later cycles that fetch it emit
  nothing.
\<close>

theorem partial_fetch_marks_seen_witness:
  "api ex_env_partial (api_calls (NewsMonitor_init ex_config))
     (search_request ex_env_partial ''Brasil'' (NewsMonitor_init ex_config)) =
     Response ([ex_article] @ ex_no_url # []) \<and>
   r_url ex_article \<noteq> None \<and> r_url ex_no_url = None \<and>
   fst (fetch_news_for_ticker ex_env_partial ''Brasil'' (NewsMonitor_init ex_config)) = [] \<and>
   processed_articles (snd (fetch_news_for_ticker ex_env_partial ''Brasil'' (NewsMonitor_init ex_config))) =
     {PStr ''http://a''} \<and>
   fst (cycles ex_env_same 2
     (snd (fetch_news_for_ticker ex_env_partial ''Brasil'' (NewsMonitor_init ex_config)))) = []"
proof -
  let ?st = "NewsMonitor_init ex_config"
  have h1: "api ex_env_partial (api_calls ?st) (search_request ex_env_partial ''Brasil'' ?st) =
     Response ([ex_article] @ ex_no_url # [])"
    by (simp add: ex_env_partial_def NewsMonitor_init_def)
  have h2: "\<forall>r\<in>set [ex_article]. r_url r \<noteq> None" by (simp add: ex_article_def)
  have h3: "r_url ex_no_url = None" by (simp add: ex_no_url_def)
  have p: "processed_articles (snd (fetch_news_for_ticker ex_env_partial ''Brasil'' ?st)) =
     {PStr ''http://a''}"
    by (simp add: run_eval ex_eval char_eval)
  have l: "fst (cycles ex_env_same 2 (snd (fetch_news_for_ticker ex_env_partial ''Brasil'' ?st))) = []"
    by (simp add: run_eval ex_eval char_eval numeral_2_eq_2)
  from partial_fetch_marks_seen[OF h1 h2 h3]
  have "fst (fetch_news_for_ticker ex_env_partial ''Brasil'' ?st) = []" by blast
  with h1 h2 h3 p l show ?thesis by simp
qed

lemma article_text_of:
  "text_of (r_title r) t \<Longrightarrow> text_of (r_description r) d \<Longrightarrow> article_text r = t @ '' '' @ d"
  by (auto simp: text_of_def article_text_def dict_get_def)

lemma count_distinct_one:
  "distinct (map f xs) \<Longrightarrow> y \<in> f ` set xs \<Longrightarrow> length (filter (\<lambda>a. f a = y) xs) = 1"
proof (induction xs)
  case Nil
  then show ?case by simp
next
  case (Cons x xs)
  show ?case
  proof (cases "f x = y")
    case True
    with Cons.prems(1) have "y \<notin> f ` set xs" by auto
    then have "filter (\<lambda>a. f a = y) xs = []" by (auto simp: filter_empty_conv)
    with True show ?thesis by simp
  next
    case False
    with Cons.prems have "distinct (map f xs)" "y \<in> f ` set xs" by auto
    from Cons.IH[OF this] False show ?thesis by simp
  qed
qed

lemma fetch_emits_match:
  assumes reply: "api e (api_calls st) (search_request e tk st) = Response rs"
    and urls: "\<forall>r\<in>set rs. r_url r \<noteq> None"
    and r: "r \<in> set rs" "r_url r = Some u"
      "\<exists>k\<in>set (price_moving_keywords (config st)). occurs_in k (article_text r)"
    and fresh: "u \<notin> processed_articles st"
  shows "length (filter (\<lambda>a. url a = u) (fst (fetch_news_for_ticker e tk st))) = 1"
proof (cases rule: fetch_cases[of e st tk])
  case (raises x)
  with reply show ?thesis by simp
next
  case (broken rs')
  with reply have "rs' = rs" by simp
  with broken(2) urls show ?thesis by simp
next
  case (returns rs')
  with reply have rs': "rs' = rs" by simp
  have "u \<in> matching_urls (price_moving_keywords (config st)) rs"
    using r by (auto simp: matching_urls_occurs)
  with returns(4,5) rs' fresh
  have "u \<in> url ` set (fst (fetch_news_for_ticker e tk st))" by auto
  with returns(3) show ?thesis by (rule count_distinct_one)
qed

text \<open>
  Claim C6, as amended. The text of an article is its title, one space and its
  description, an absent field counting as empty; the statement is about articles whose
  title and description are strings or absent. Let a fetch of \<open>stock_news_monitor.py\<close>
  receive a response in which no article with the URL \<open>u\<close> has a configured keyword in
  its text. Then the fetch returns no article with that URL for emission, and the URL is in
  \<open>processed_articles\<close> afterwards exactly when it was there before. So, when it was not
  there, the article stays eligible: the next fetch, when it does not raise and its
  response holds an article with that URL whose text has a configured keyword, returns
  exactly one article with that URL.
\<close>

theorem non_matching_stays_eligible:
  assumes "api e (api_calls st) (search_request e tk st) = Response rs"
    and "\<forall>r\<in>set rs. r_url r = Some u \<longrightarrow>
           (\<exists>t d. text_of (r_title r) t \<and> text_of (r_description r) d \<and>
              (\<forall>k\<in>set (price_moving_keywords (config st)). \<not> occurs_in k (t @ '' '' @ d)))"
  shows "u \<notin> url ` set (fst (fetch_news_for_ticker e tk st)) \<and>
    (u \<in> processed_articles (snd (fetch_news_for_ticker e tk st))) = (u \<in> processed_articles st) \<and>
    (u \<notin> processed_articles st \<longrightarrow>
      (\<forall>e' tk' rs' r' t d.
         api e' (api_calls (snd (fetch_news_for_ticker e tk st)))
           (search_request e' tk' (snd (fetch_news_for_ticker e tk st))) = Response rs' \<and>
         (\<forall>r\<in>set rs'. r_url r \<noteq> None) \<and>
         r' \<in> set rs' \<and> r_url r' = Some u \<and>
         text_of (r_title r') t \<and> text_of (r_description r') d \<and>
         (\<exists>k\<in>set (price_moving_keywords (config st)). occurs_in k (t @ '' '' @ d)) \<longrightarrow>
         length (filter (\<lambda>a. url a = u)
           (fst (fetch_news_for_ticker e' tk' (snd (fetch_news_for_ticker e tk st))))) = 1))"
proof -
  let ?kws = "price_moving_keywords (config st)"
  let ?st' = "snd (fetch_news_for_ticker e tk st)"
  have nm: "u \<notin> matching_urls ?kws rs"
  proof
    assume "u \<in> matching_urls ?kws rs"
    then obtain r k where r: "r \<in> set rs" "r_url r = Some u" "k \<in> set ?kws"
      "occurs_in k (article_text r)"
      by (auto simp: matching_urls_occurs)
    from assms(2) r(1,2) obtain t d where td: "text_of (r_title r) t" "text_of (r_description r) d"
      "\<forall>k\<in>set ?kws. \<not> occurs_in k (t @ '' '' @ d)" by blast
    from article_text_of[OF td(1,2)] r(3,4) td(3) show False by simp
  qed
  have sub: "processed_articles ?st' \<subseteq> processed_articles st \<union> matching_urls ?kws rs"
    by (rule fetch_marks[OF assms(1)])
  have mono: "processed_articles st \<subseteq> processed_articles ?st'"
    by (rule fetch_processed_mono)
  have fr: "url ` set (fst (fetch_news_for_ticker e tk st)) \<subseteq>
     processed_articles ?st' - processed_articles st"
    by (rule fetch_emitted_fresh)
  have same: "(u \<in> processed_articles ?st') = (u \<in> processed_articles st)"
    using nm sub mono by blast
  have notem: "u \<notin> url ` set (fst (fetch_news_for_ticker e tk st))"
    using fr nm sub by blast
  have cfg: "config ?st' = config st" by (rule fetch_frame)
  have later: "length (filter (\<lambda>a. url a = u) (fst (fetch_news_for_ticker e' tk' ?st'))) = 1"
    if fresh: "u \<notin> processed_articles st"
      and h: "api e' (api_calls ?st') (search_request e' tk' ?st') = Response rs' \<and>
         (\<forall>r\<in>set rs'. r_url r \<noteq> None) \<and>
         r' \<in> set rs' \<and> r_url r' = Some u \<and>
         text_of (r_title r') t \<and> text_of (r_description r') d \<and>
         (\<exists>k\<in>set ?kws. occurs_in k (t @ '' '' @ d))"
    for e' tk' rs' r' t d
  proof (rule fetch_emits_match)
    show "api e' (api_calls ?st') (search_request e' tk' ?st') = Response rs'" using h by blast
    show "\<forall>r\<in>set rs'. r_url r \<noteq> None" using h by blast
    show "r' \<in> set rs'" using h by blast
    show "r_url r' = Some u" using h by blast
    have "article_text r' = t @ '' '' @ d" using h by (intro article_text_of) blast+
    then show "\<exists>k\<in>set (price_moving_keywords (config ?st')). occurs_in k (article_text r')"
      using h cfg by simp
    show "u \<notin> processed_articles ?st'" using same fresh by simp
  qed
  show ?thesis
  proof (intro conjI impI allI)
    show "u \<notin> url ` set (fst (fetch_news_for_ticker e tk st))" by (rule notem)
    show "(u \<in> processed_articles ?st') = (u \<in> processed_articles st)" by (rule same)
  next
    fix e' tk' rs' r' t d
    assume "u \<notin> processed_articles st"
      and "api e' (api_calls ?st') (search_request e' tk' ?st') = Response rs' \<and>
         (\<forall>r\<in>set rs'. r_url r \<noteq> None) \<and>
         r' \<in> set rs' \<and> r_url r' = Some u \<and>
         text_of (r_title r') t \<and> text_of (r_description r') d \<and>
         (\<exists>k\<in>set ?kws. occurs_in k (t @ '' '' @ d))"
    then show "length (filter (\<lambda>a. url a = u) (fst (fetch_news_for_ticker e' tk' ?st'))) = 1"
      by (rule later)
  qed
qed

lemmas occurs_eval = occurs_in_def py_in_sublist[symmetric]

text \<open>
  The first search returns an article without any keyword. The second returns another
  article and then the first one with a title that holds a keyword: both are emitted.
\<close>

theorem non_matching_stays_eligible_witness:
  "api ex_env_shared (api_calls (NewsMonitor_init ex_config))
     (search_request ex_env_shared ''Brasil'' (NewsMonitor_init ex_config)) = Response [ex_plain] \<and>
   r_url ex_plain = Some (PStr ''http://b'') \<and>
   text_of (r_title ex_plain) ''Futebol'' \<and> text_of (r_description ex_plain) ''Resultado do jogo'' \<and>
   \<not> occurs_in ''safra'' (''Futebol'' @ '' '' @ ''Resultado do jogo'') \<and>
   \<not> occurs_in ''clima'' (''Futebol'' @ '' '' @ ''Resultado do jogo'') \<and>
   fst (fetch_news_for_ticker ex_env_shared ''Brasil'' (NewsMonitor_init ex_config)) = [] \<and>
   PStr ''http://b'' \<notin>
     processed_articles (snd (fetch_news_for_ticker ex_env_shared ''Brasil'' (NewsMonitor_init ex_config))) \<and>
   occurs_in ''clima'' (''Clima muda o jogo'' @ '' '' @ ''Resultado do jogo'') \<and>
   map url (fst (fetch_news_for_ticker ex_env_shared ''Brasil''
     (snd (fetch_news_for_ticker ex_env_shared ''Brasil'' (NewsMonitor_init ex_config))))) =
     [PStr ''http://a'', PStr ''http://b''] \<and>
   length (filter (\<lambda>a. url a = PStr ''http://b'') (fst (fetch_news_for_ticker ex_env_shared ''Brasil''
     (snd (fetch_news_for_ticker ex_env_shared ''Brasil'' (NewsMonitor_init ex_config)))))) = 1"
proof -
  let ?st = "NewsMonitor_init ex_config"
  let ?st' = "snd (fetch_news_for_ticker ex_env_shared ''Brasil'' ?st)"
  have kws: "price_moving_keywords (config ?st) = [''safra'', ''clima'']"
    by (simp add: NewsMonitor_init_def ex_config_def)
  have h1: "api ex_env_shared (api_calls ?st) (search_request ex_env_shared ''Brasil'' ?st) =
      Response [ex_plain]"
    by (simp add: ex_env_shared_def NewsMonitor_init_def)
  have u: "r_url ex_plain = Some (PStr ''http://b'')" by (simp add: ex_plain_def)
  have t: "text_of (r_title ex_plain) ''Futebol''"
    and d: "text_of (r_description ex_plain) ''Resultado do jogo''"
    by (simp_all add: text_of_def ex_plain_def)
  have n1: "\<not> occurs_in ''safra'' (''Futebol'' @ '' '' @ ''Resultado do jogo'')"
    and n2: "\<not> occurs_in ''clima'' (''Futebol'' @ '' '' @ ''Resultado do jogo'')"
    by (simp_all add: occurs_eval char_eval)
  have h2: "\<forall>r\<in>set [ex_plain]. r_url r = Some (PStr ''http://b'') \<longrightarrow>
           (\<exists>t d. text_of (r_title r) t \<and> text_of (r_description r) d \<and>
              (\<forall>k\<in>set (price_moving_keywords (config ?st)). \<not> occurs_in k (t @ '' '' @ d)))"
  proof (intro ballI impI)
    fix r assume "r \<in> set [ex_plain]"
    then have r: "r = ex_plain" by simp
    have inner: "\<forall>k\<in>set (price_moving_keywords (config ?st)).
        \<not> occurs_in k (''Futebol'' @ '' '' @ ''Resultado do jogo'')"
      unfolding kws using n1 n2 by simp
    from t d inner
    show "\<exists>t d. text_of (r_title r) t \<and> text_of (r_description r) d \<and>
              (\<forall>k\<in>set (price_moving_keywords (config ?st)). \<not> occurs_in k (t @ '' '' @ d))"
      unfolding r by blast
  qed
  have f: "fst (fetch_news_for_ticker ex_env_shared ''Brasil'' ?st) = []"
    by (simp add: run_eval ex_eval ex_env_shared_def char_eval)
  have fresh: "PStr ''http://b'' \<notin> processed_articles ?st"
    by (simp add: NewsMonitor_init_def)
  have h3: "api ex_env_shared (api_calls ?st') (search_request ex_env_shared ''Brasil'' ?st') =
      Response [ex_article, ex_plain_later]"
    by (simp add: fetch_frame ex_env_shared_def NewsMonitor_init_def)
  have h4: "\<forall>r\<in>set [ex_article, ex_plain_later]. r_url r \<noteq> None"
    by (simp add: ex_article_def ex_plain_later_def ex_plain_def)
  have h5: "r_url ex_plain_later = Some (PStr ''http://b'')"
    by (simp add: ex_plain_later_def ex_plain_def)
  have t': "text_of (r_title ex_plain_later) ''Clima muda o jogo''"
    and d': "text_of (r_description ex_plain_later) ''Resultado do jogo''"
    by (simp_all add: text_of_def ex_plain_later_def ex_plain_def)
  have o: "occurs_in ''clima'' (''Clima muda o jogo'' @ '' '' @ ''Resultado do jogo'')"
    by (simp add: occurs_eval char_eval)
  then have h6: "\<exists>k\<in>set (price_moving_keywords (config ?st)).
      occurs_in k (''Clima muda o jogo'' @ '' '' @ ''Resultado do jogo'')"
    using kws by simp
  have m: "map url (fst (fetch_news_for_ticker ex_env_shared ''Brasil'' ?st')) =
     [PStr ''http://a'', PStr ''http://b'']"
    by (simp add: run_eval ex_eval ex_env_shared_def char_eval)
  from non_matching_stays_eligible[OF h1 h2] fresh h3 h4 h5 t' d' h6
  have "PStr ''http://b'' \<notin> processed_articles ?st'"
    and "length (filter (\<lambda>a. url a = PStr ''http://b'')
       (fst (fetch_news_for_ticker ex_env_shared ''Brasil'' ?st'))) = 1"
    by (blast, metis (no_types, lifting) list.set_intros(1,2))
  with h1 u t d n1 n2 f o m show ?thesis by blast
qed

text \<open>
  Claim C6 as stated fails where a keyword lies across the end of the title and the start
  of the description: neither field holds it, nor does the title directly followed by the
  description, but the text the code builds has a space between the two. The article is
  emitted and its URL is added to \<open>processed_articles\<close>.
\<close>

theorem keyword_across_title_and_description:
  "price_moving_keywords (config (NewsMonitor_init ex_config_tick)) = [''tick de soja''] \<and>
   api ex_env_tick (api_calls (NewsMonitor_init ex_config_tick))
     (search_request ex_env_tick ''Brasil'' (NewsMonitor_init ex_config_tick)) = Response [ex_tick] \<and>
   r_title ex_tick = Some (PStr ''Alta do tick'') \<and>
   r_description ex_tick = Some (PStr ''de soja em Chicago'') \<and>
   \<not> occurs_in ''tick de soja'' ''Alta do tick'' \<and>
   \<not> occurs_in ''tick de soja'' ''de soja em Chicago'' \<and>
   \<not> occurs_in ''tick de soja'' (''Alta do tick'' @ ''de soja em Chicago'') \<and>
   map url (fst (fetch_news_for_ticker ex_env_tick ''Brasil'' (NewsMonitor_init ex_config_tick))) =
     [PStr ''http://c''] \<and>
   processed_articles (snd (fetch_news_for_ticker ex_env_tick ''Brasil'' (NewsMonitor_init ex_config_tick))) =
     {PStr ''http://c''}"
  by (simp add: run_eval ex_config_tick_def ex_tick_def ex_env_tick_def occurs_eval char_eval)

lemma upper_char_fixed:
  assumes "c' \<in> set (upper_char c)"
  shows "upper_char c' = [c']"
proof -
  let ?n = "of_char c :: nat"
  have lt: "?n < 256" by (rule nat_of_char_less_256)
  consider (low) "(97 \<le> ?n \<and> ?n \<le> 122) \<or> (224 \<le> ?n \<and> ?n \<le> 254 \<and> ?n \<noteq> 247)"
    | (ss) "\<not> ((97 \<le> ?n \<and> ?n \<le> 122) \<or> (224 \<le> ?n \<and> ?n \<le> 254 \<and> ?n \<noteq> 247))" "?n = 223"
    | (other) "\<not> ((97 \<le> ?n \<and> ?n \<le> 122) \<or> (224 \<le> ?n \<and> ?n \<le> 254 \<and> ?n \<noteq> 247))" "?n \<noteq> 223"
    by blast
  then show ?thesis
  proof cases
    case low
    with assms have c': "c' = char_of (?n - 32)" by (simp add: upper_char_def Let_def)
    have "of_char c' = (?n - 32) mod 256" unfolding c' by simp
    also have "\<dots> = ?n - 32" by (rule mod_less) (use lt in arith)
    finally have n': "(of_char c' :: nat) = ?n - 32" .
    show ?thesis using low n' by (auto simp: upper_char_def Let_def)
  next
    case ss
    with assms have "c' = CHR ''S''" by (simp add: upper_char_def Let_def)
    then show ?thesis by (simp add: upper_char_def)
  next
    case other
    with assms have "c' = c" by (simp add: upper_char_def Let_def)
    with other show ?thesis by (auto simp: upper_char_def Let_def)
  qed
qed

lemma upper_fixed: "\<forall>c\<in>set s. upper_char c = [c] \<Longrightarrow> upper s = s"
  by (induction s) (simp_all add: upper_def)

lemma upper_idem: "upper (upper s) = upper s"
proof (rule upper_fixed, rule ballI)
  fix c assume "c \<in> set (upper s)"
  then obtain d where "d \<in> set s" "c \<in> set (upper_char d)"
    by (auto simp: upper_def)
  then show "upper_char c = [c]" by (simp add: upper_char_fixed)
qed

lemma cycles_bt_config: "config (snd (cycles_bt e n st)) = config st"
  using cycles_bt_nothing[of e n st] by simp

text \<open>
  Claim C7, as amended. In \<open>stock_news_monitor.py\<close> the ticker list of every monitor is
  the list of the keys of the fixed ticker mapping, the one ticker Brasil: not empty, and
  not upper-cased. In \<open>backtest.py\<close>, \<open>main\<close> upper-cases the tickers of the command
  line, of which the parser accepts one or more: the ticker list is not empty and
  upper-casing a ticker of it changes nothing. (The tickers of the command line are taken
  without the two letters U+00B5 and U+00FF, whose capitals are beyond the alphabet of the
  model.) In both files the cycles leave the ticker list as it is.
\<close>

theorem tickers_of_config:
  "tickers (config (NewsMonitor_init cfg)) = [''Brasil''] \<and>
   (args_tickers \<noteq> [] \<and> (\<forall>t\<in>set args_tickers. \<forall>c\<in>set t. c \<noteq> CHR 0xB5 \<and> c \<noteq> CHR 0xFF) \<longrightarrow>
      tickers (config (NewsMonitor_init_bt (main_config_bt args_tickers key interval))) =
        map upper args_tickers \<and>
      tickers (config (NewsMonitor_init_bt (main_config_bt args_tickers key interval))) \<noteq> [] \<and>
      (\<forall>t\<in>set (tickers (config (NewsMonitor_init_bt (main_config_bt args_tickers key interval)))).
          upper t = t)) \<and>
   tickers (config (snd (cycles e n st))) = tickers (config st) \<and>
   tickers (config (snd (cycles_bt e n st))) = tickers (config st)"
  by (auto simp: NewsMonitor_init_def build_ticker_mapping_def NewsMonitor_init_bt_def
      main_config_bt_def upper_idem cycles_config cycles_bt_config)

text \<open>
  The command line \<open>adm Bunge\<close> gives the tickers ADM and BUNGE.
\<close>

theorem tickers_of_config_witness:
  "[''adm'', ''Bunge''] \<noteq> [] \<and>
   tickers (config (NewsMonitor_init_bt (main_config_bt [''adm'', ''Bunge''] ''key'' None))) =
     [''ADM'', ''BUNGE''] \<and>
   upper ''ADM'' = ''ADM'' \<and> upper ''BUNGE'' = ''BUNGE''"
proof -
  have v: "map upper [''adm'', ''Bunge''] = [''ADM'', ''BUNGE'']"
    by (simp add: char_eval)
  have n: "[''adm'', ''Bunge''] \<noteq> ([] :: string list)" by simp
  have a: "\<forall>t\<in>set [''adm'', ''Bunge'']. \<forall>c\<in>set t. c \<noteq> CHR 0xB5 \<and> c \<noteq> CHR 0xFF"
    by simp
  from tickers_of_config[where args_tickers = "[''adm'', ''Bunge'']" and key = "''key''"
      and interval = None] n a
  have t: "tickers (config (NewsMonitor_init_bt (main_config_bt [''adm'', ''Bunge''] ''key'' None))) =
        map upper [''adm'', ''Bunge'']"
    and f: "\<forall>t\<in>set (tickers (config (NewsMonitor_init_bt (main_config_bt [''adm'', ''Bunge''] ''key'' None)))).
          upper t = t"
    by blast+
  from f have "upper ''ADM'' = ''ADM'' \<and> upper ''BUNGE'' = ''BUNGE''"
    unfolding t v by simp
  with t v n show ?thesis by simp
qed

text \<open>
  Claim C7 as stated fails for \<open>stock_news_monitor.py\<close>: the one ticker of its
  configuration is Brasil, whose upper-case form is BRASIL.
\<close>

theorem brasil_not_upper_case:
  "tickers (config (NewsMonitor_init ex_config)) = [''Brasil''] \<and>
   upper ''Brasil'' = ''BRASIL'' \<and> ''BRASIL'' \<noteq> ''Brasil''"
  by (simp add: NewsMonitor_init_def build_ticker_mapping_def char_eval)



lemma check_tickers_config:
  "config (snd (check_tickers e ts st)) = config st"
proof -
  have "emits e st (fst (check_tickers e ts st)) (snd (check_tickers e ts st))"
    by (rule check_tickers_emits) simp
  then show ?thesis by (simp add: emits_def)
qed












end
